theory Spec2Isabelle
  imports Main "HOL-Library.Word" "HOL-Library.Log_Nat"
begin

section \<open>The Number type of the language\<close>

text \<open>
  Every \<^verbatim>\<open>number\<close> of the TypeScript sources is an IEEE 754 binary64 value: a NaN, one of
  the two infinities, one of the two zeros, or a finite non-zero value. A finite value is kept
  as the rational it denotes; \<open>Finite 0\<close> is the positive zero and \<open>NegZero\<close> the negative one.
\<close>

datatype number = NaN | PosInfinity | NegInfinity | NegZero | Finite rat

definition is_inf :: "number \<Rightarrow> bool" where
  "is_inf x = (x = PosInfinity \<or> x = NegInfinity)"

definition is_zero :: "number \<Rightarrow> bool" where
  "is_zero x = (x = NegZero \<or> x = Finite 0)"

text \<open>The mathematical value of a number that is neither a NaN nor an infinity.\<close>

fun rat_of :: "number \<Rightarrow> rat" where
  "rat_of (Finite q) = q"
| "rat_of _ = 0"

text \<open>The sign bit: \<open>True\<close> for the negative values, the negative zero included.\<close>

fun sign_bit :: "number \<Rightarrow> bool" where
  "sign_bit (Finite q) = (q < 0)"
| "sign_bit NegInfinity = True"
| "sign_bit NegZero = True"
| "sign_bit _ = False"

definition signed_inf :: "bool \<Rightarrow> number" where
  "signed_inf neg = (if neg then NegInfinity else PosInfinity)"

definition signed_zero :: "bool \<Rightarrow> number" where
  "signed_zero neg = (if neg then NegZero else Finite 0)"

subsection \<open>Rounding a real result to the nearest binary64 value\<close>

definition pow2 :: "int \<Rightarrow> rat" where
  "pow2 e = (if 0 \<le> e then 2 ^ nat e else 1 / 2 ^ nat (- e))"

text \<open>\<open>ilog2 q\<close> is the \<open>k\<close> with \<open>2 ^ k \<le> q < 2 ^ (k + 1)\<close>, for a positive \<open>q\<close>.\<close>

definition ilog2 :: "rat \<Rightarrow> int" where
  "ilog2 q =
     (let (a, b) = quotient_of q; k = bitlen a - bitlen b
      in if pow2 k \<le> q then k else k - 1)"

definition round_half_even :: "rat \<Rightarrow> int" where
  "round_half_even x =
     (let f = \<lfloor>x\<rfloor>; d = x - of_int f
      in if d < 1 / 2 then f
         else if 1 / 2 < d then f + 1
         else if even f then f else f + 1)"

text \<open>
  A positive magnitude is rounded to 53 significant bits, ties to the even significand; below
  \<open>2 ^ -1022\<close> the spacing stays \<open>2 ^ -1074\<close> (the subnormal range). \<open>None\<close> is the overflow:
  the rounded magnitude would reach \<open>2 ^ 1024\<close>.
\<close>

definition round_magnitude :: "rat \<Rightarrow> rat option" where
  "round_magnitude q =
     (let e = max (ilog2 q - 52) (- 1074);
          r = of_int (round_half_even (q / pow2 e)) * pow2 e
      in if pow2 1024 \<le> r then None else Some r)"

definition to_double :: "rat \<Rightarrow> number" where
  "to_double q =
     (if q = 0 then Finite 0
      else if 0 < q then
        (case round_magnitude q of None \<Rightarrow> PosInfinity | Some r \<Rightarrow> Finite r)
      else
        (case round_magnitude (- q) of
           None \<Rightarrow> NegInfinity
         | Some r \<Rightarrow> if r = 0 then NegZero else Finite (- r)))"

subsection \<open>The arithmetic operators\<close>

definition num_neg :: "number \<Rightarrow> number" where
  "num_neg x =
     (case x of
        NaN \<Rightarrow> NaN
      | PosInfinity \<Rightarrow> NegInfinity
      | NegInfinity \<Rightarrow> PosInfinity
      | NegZero \<Rightarrow> Finite 0
      | Finite q \<Rightarrow> if q = 0 then NegZero else Finite (- q))"

definition num_add :: "number \<Rightarrow> number \<Rightarrow> number" where
  "num_add x y =
     (if x = NaN \<or> y = NaN then NaN
      else if is_inf x \<and> is_inf y then (if x = y then x else NaN)
      else if is_inf x then x
      else if is_inf y then y
      else if x = NegZero \<and> y = NegZero then NegZero
      else let s = rat_of x + rat_of y in if s = 0 then Finite 0 else to_double s)"

definition num_sub :: "number \<Rightarrow> number \<Rightarrow> number" where
  "num_sub x y = num_add x (num_neg y)"

definition num_mul :: "number \<Rightarrow> number \<Rightarrow> number" where
  "num_mul x y =
     (if x = NaN \<or> y = NaN then NaN
      else if (is_inf x \<and> is_zero y) \<or> (is_zero x \<and> is_inf y) then NaN
      else if is_inf x \<or> is_inf y then signed_inf (sign_bit x \<noteq> sign_bit y)
      else if is_zero x \<or> is_zero y then signed_zero (sign_bit x \<noteq> sign_bit y)
      else to_double (rat_of x * rat_of y))"

definition num_div :: "number \<Rightarrow> number \<Rightarrow> number" where
  "num_div x y =
     (if x = NaN \<or> y = NaN then NaN
      else if (is_inf x \<and> is_inf y) \<or> (is_zero x \<and> is_zero y) then NaN
      else if is_inf x \<or> is_zero y then signed_inf (sign_bit x \<noteq> sign_bit y)
      else if is_inf y \<or> is_zero x then signed_zero (sign_bit x \<noteq> sign_bit y)
      else to_double (rat_of x / rat_of y))"

definition trunc :: "rat \<Rightarrow> int" where
  "trunc x = (if 0 \<le> x then \<lfloor>x\<rfloor> else \<lceil>x\<rceil>)"

text \<open>
  The remainder \<^verbatim>\<open>%\<close> takes the sign of the dividend, and its result is exact: the remainder
  of two binary64 values is a binary64 value, so that no rounding takes place.
\<close>

definition num_rem :: "number \<Rightarrow> number \<Rightarrow> number" where
  "num_rem n d =
     (if n = NaN \<or> d = NaN then NaN
      else if is_inf n then NaN
      else if is_inf d then n
      else if is_zero d then NaN
      else if is_zero n then n
      else let r = rat_of n - rat_of d * of_int (trunc (rat_of n / rat_of d))
           in if r = 0 then signed_zero (sign_bit n) else Finite r)"

subsection \<open>The comparisons\<close>

text \<open>\<^verbatim>\<open>x === y\<close> on numbers: a NaN equals nothing, and the two zeros are equal.\<close>

definition num_strict_eq :: "number \<Rightarrow> number \<Rightarrow> bool" where
  "num_strict_eq x y =
     (if x = NaN \<or> y = NaN then False
      else if is_inf x \<or> is_inf y then x = y
      else rat_of x = rat_of y)"

text \<open>\<^verbatim>\<open>x < y\<close> on numbers: false as soon as one side is a NaN.\<close>

definition num_lt :: "number \<Rightarrow> number \<Rightarrow> bool" where
  "num_lt x y =
     (if x = NaN \<or> y = NaN then False
      else if x = y then False
      else if x = PosInfinity \<or> y = NegInfinity then False
      else if x = NegInfinity \<or> y = PosInfinity then True
      else rat_of x < rat_of y)"

definition num_gt :: "number \<Rightarrow> number \<Rightarrow> bool" where
  "num_gt x y = num_lt y x"

section \<open>Strings and thrown values\<close>

text \<open>A string of the language is a sequence of UTF-16 code units.\<close>

type_synonym code_unit = "16 word"

type_synonym jsstring = "code_unit list"

text \<open>The string whose code units are the given ASCII characters.\<close>

definition js :: "string \<Rightarrow> jsstring" where
  "js s = map of_char s"

text \<open>
  A thrown value: an \<^verbatim>\<open>Error\<close> object with its message, as \<^verbatim>\<open>new Error(msg)\<close> builds it,
  or the \<^verbatim>\<open>TypeError\<close> the runtime raises itself.
\<close>

datatype exn = Error jsstring | TypeError jsstring

text \<open>An evaluation either returns a value or throws.\<close>

datatype 'a completion = Normal 'a | Throw exn

section \<open>Calculator.ts\<close>

text \<open>The class has one field, \<^verbatim>\<open>value\<close>; it is \<open>value'\<close> here.\<close>

record Calculator =
  value' :: number

text \<open>
  A call of a method takes the state of the receiver and gives its completion together with
  the state the receiver is left in. The mutators return \<^verbatim>\<open>this\<close>: the receiver itself, so that
  their returned value carries nothing beyond the state and is the unit value here.
\<close>

type_synonym 'a call = "Calculator \<Rightarrow> 'a completion \<times> Calculator"

text \<open>
  \<^verbatim>\<open>constructor(initialValue: number = 0)\<close>: \<open>None\<close> is the omitted argument, which takes the
  default.
\<close>

definition new_Calculator :: "number option \<Rightarrow> Calculator completion" where
  "new_Calculator initialValue =
     Normal \<lparr>value' = (case initialValue of None \<Rightarrow> Finite 0 | Some n \<Rightarrow> n)\<rparr>"

definition Calculator_add :: "number \<Rightarrow> unit call" where
  "Calculator_add n this = (Normal (), this\<lparr>value' := num_add (value' this) n\<rparr>)"

definition Calculator_subtract :: "number \<Rightarrow> unit call" where
  "Calculator_subtract n this = (Normal (), this\<lparr>value' := num_sub (value' this) n\<rparr>)"

definition Calculator_multiply :: "number \<Rightarrow> unit call" where
  "Calculator_multiply n this = (Normal (), this\<lparr>value' := num_mul (value' this) n\<rparr>)"

definition DivisionByZero :: exn where
  "DivisionByZero = Error (js ''Division by zero'')"

definition Calculator_divide :: "number \<Rightarrow> unit call" where
  "Calculator_divide n this =
     (if num_strict_eq n (Finite 0) then (Throw DivisionByZero, this)
      else (Normal (), this\<lparr>value' := num_div (value' this) n\<rparr>))"

definition Calculator_getValue :: "number call" where
  "Calculator_getValue this = (Normal (value' this), this)"

definition Calculator_reset :: "unit call" where
  "Calculator_reset this = (Normal (), this\<lparr>value' := Finite 0\<rparr>)"

definition Calculator_setValue :: "number \<Rightarrow> unit call" where
  "Calculator_setValue n this = (Normal (), this\<lparr>value' := n\<rparr>)"

definition Calculator_isEven :: "bool call" where
  "Calculator_isEven this =
     (Normal (num_strict_eq (num_rem (value' this) (Finite 2)) (Finite 0)), this)"

definition Calculator_isPositive :: "bool call" where
  "Calculator_isPositive this = (Normal (num_gt (value' this) (Finite 0)), this)"

text \<open>
  A chained call \<^verbatim>\<open>calc.f(..).g(..)\<close>: \<open>g\<close> runs on the receiver as \<open>f\<close> left it, and not at
  all when \<open>f\<close> threw.
\<close>

definition chain :: "'a completion \<times> Calculator \<Rightarrow> 'b call \<Rightarrow> 'b completion \<times> Calculator" where
  "chain r m = (case fst r of Normal _ \<Rightarrow> m (snd r) | Throw e \<Rightarrow> (Throw e, snd r))"

text \<open>The three observers, and a sequence of calls of them on one receiver.\<close>

datatype observer = GetValue | IsEven | IsPositive

fun observe :: "observer \<Rightarrow> Calculator \<Rightarrow> Calculator" where
  "observe GetValue this = snd (Calculator_getValue this)"
| "observe IsEven this = snd (Calculator_isEven this)"
| "observe IsPositive this = snd (Calculator_isPositive this)"

fun observe_all :: "observer list \<Rightarrow> Calculator \<Rightarrow> Calculator" where
  "observe_all [] this = this"
| "observe_all (ob # obs) this = observe_all obs (observe ob this)"

text \<open>
  The scenario \<^verbatim>\<open>new Calculator().add(10).multiply(2).subtract(5).divide(3)\<close>, followed by
  \<^verbatim>\<open>getValue()\<close>.
\<close>

definition end_to_end :: "number completion" where
  "end_to_end =
     (case new_Calculator None of
        Throw e \<Rightarrow> Throw e
      | Normal calc \<Rightarrow>
          fst (Calculator_getValue
                 (snd (chain (chain (chain (Calculator_add (Finite 10) calc)
                                       (Calculator_multiply (Finite 2)))
                                (Calculator_subtract (Finite 5)))
                         (Calculator_divide (Finite 3))))))"

section \<open>utils.ts\<close>

subsection \<open>The arithmetic helpers\<close>

definition add :: "number \<Rightarrow> number \<Rightarrow> number" where
  "add a b = num_add a b"

definition subtract :: "number \<Rightarrow> number \<Rightarrow> number" where
  "subtract a b = num_sub a b"

definition multiply :: "number \<Rightarrow> number \<Rightarrow> number" where
  "multiply a b = num_mul a b"

subsection \<open>The values a parameter of type \<^verbatim>\<open>unknown\<close> ranges over\<close>

text \<open>
  The primitive values and the objects. \<^verbatim>\<open>getErrorMessage\<close> does four things to an object, and
  each of them can run code of the object: an accessor, a method or a trap of a proxy. So an
  object is given by what these four yield when the call makes them, each one a value
  returned (\<open>Inr\<close>) or a value thrown (\<open>Inl\<close>):
  \<^item> the test \<^verbatim>\<open>o instanceof Error\<close>, which walks the prototypes of \<open>o\<close>;
  \<^item> the test \<^verbatim>\<open>"message" in o\<close>;
  \<^item> the read \<^verbatim>\<open>o.message\<close>: any value, \<^verbatim>\<open>undefined\<close> where there is no such property;
  \<^item> the conversion \<^verbatim>\<open>String(o)\<close>, which calls the \<^verbatim>\<open>toString\<close> or \<^verbatim>\<open>valueOf\<close> of \<open>o\<close> and throws a
    \<^verbatim>\<open>TypeError\<close> when \<open>o\<close> has neither.

  An object is of one of three kinds: for an ordinary one \<^verbatim>\<open>typeof\<close> gives \<^verbatim>\<open>"object"\<close>, for a function
  \<^verbatim>\<open>"function"\<close>, and for the host object \<^verbatim>\<open>document.all\<close> of a browser, which is the one object
  that counts as false in a condition, \<^verbatim>\<open>"undefined"\<close>. The built-in \<^verbatim>\<open>Error\<close> and \<^verbatim>\<open>String\<close> are the
  ones of the language.
\<close>

datatype object_kind = Ordinary | Callable | HTMLDDA

datatype jsval =
    Undefined
  | Null
  | Boolean bool
  | Number number
  | String jsstring
  | BigInt int
  | Symbol jsstring
  | Object object_kind "jsval + bool" "jsval + bool" "jsval + jsval" "jsval + jsstring"

text \<open>What an evaluation in this module yields: \<open>Inr\<close> the value returned, \<open>Inl\<close> the value thrown.\<close>

type_synonym 'a outcome = "jsval + 'a"

text \<open>
  Some objects: the one that \<^verbatim>\<open>new Error(msg)\<close> builds, the \<^verbatim>\<open>TypeError\<close> that the runtime
  throws, the object literals \<^verbatim>\<open>{}\<close> (\<open>None\<close>) and \<^verbatim>\<open>{message: v}\<close> (\<open>Some v\<close>), and the object
  without a prototype that \<^verbatim>\<open>Object.create(null)\<close> builds.
\<close>

definition new_Error :: "jsstring \<Rightarrow> jsval" where
  "new_Error msg =
     Object Ordinary (Inr True) (Inr True) (Inr (String msg))
       (Inr (if msg = [] then js ''Error'' else js ''Error: '' @ msg))"

definition new_TypeError :: "jsstring \<Rightarrow> jsval" where
  "new_TypeError msg =
     Object Ordinary (Inr True) (Inr True) (Inr (String msg))
       (Inr (if msg = [] then js ''TypeError'' else js ''TypeError: '' @ msg))"

definition object_literal :: "jsval option \<Rightarrow> jsval" where
  "object_literal message =
     Object Ordinary (Inr False) (Inr (message \<noteq> None))
       (Inr (case message of None \<Rightarrow> Undefined | Some v \<Rightarrow> v))
       (Inr (js ''[object Object]''))"

definition Object_create_null :: jsval where
  "Object_create_null =
     Object Ordinary (Inr False) (Inr False) (Inr Undefined)
       (Inl (new_TypeError (js ''Cannot convert object to primitive value'')))"

fun typeof :: "jsval \<Rightarrow> string" where
  "typeof Undefined = ''undefined''"
| "typeof Null = ''object''"
| "typeof (Boolean _) = ''boolean''"
| "typeof (Number _) = ''number''"
| "typeof (String _) = ''string''"
| "typeof (BigInt _) = ''bigint''"
| "typeof (Symbol _) = ''symbol''"
| "typeof (Object kind _ _ _ _) =
     (case kind of Ordinary \<Rightarrow> ''object'' | Callable \<Rightarrow> ''function'' | HTMLDDA \<Rightarrow> ''undefined'')"

text \<open>The truth value of a value used as a condition.\<close>

fun truthy :: "jsval \<Rightarrow> bool" where
  "truthy Undefined = False"
| "truthy Null = False"
| "truthy (Boolean b) = b"
| "truthy (Number n) = (\<not> (n = NaN \<or> is_zero n))"
| "truthy (String s) = (s \<noteq> [])"
| "truthy (BigInt i) = (i \<noteq> 0)"
| "truthy (Symbol _) = True"
| "truthy (Object kind _ _ _ _) = (kind \<noteq> HTMLDDA)"

text \<open>\<^verbatim>\<open>v instanceof Error\<close>: false for a primitive value.\<close>

fun instanceof_Error :: "jsval \<Rightarrow> bool outcome" where
  "instanceof_Error (Object _ inst _ _ _) = inst"
| "instanceof_Error _ = Inr False"

text \<open>\<^verbatim>\<open>"message" in v\<close>: a \<^verbatim>\<open>TypeError\<close> unless \<open>v\<close> is an object.\<close>

fun message_in :: "jsval \<Rightarrow> bool outcome" where
  "message_in (Object _ _ has _ _) = has"
| "message_in _ =
     Inl (new_TypeError (js ''Cannot use in operator on a value that is not an object''))"

text \<open>
  \<^verbatim>\<open>v.message\<close>: a \<^verbatim>\<open>TypeError\<close> on \<^verbatim>\<open>undefined\<close> and \<^verbatim>\<open>null\<close>, and \<^verbatim>\<open>undefined\<close> on the other
  primitive values, whose prototypes have no property of this name.
\<close>

fun get_message :: "jsval \<Rightarrow> jsval outcome" where
  "get_message (Object _ _ _ message _) = message"
| "get_message Undefined = Inl (new_TypeError (js ''Cannot read properties of undefined''))"
| "get_message Null = Inl (new_TypeError (js ''Cannot read properties of null''))"
| "get_message _ = Inr Undefined"

subsection \<open>Conversion to a string\<close>

fun nat_to_string :: "nat \<Rightarrow> jsstring" where
  "nat_to_string n =
     (if n < 10 then [of_nat (48 + n)]
      else nat_to_string (n div 10) @ [of_nat (48 + n mod 10)])"

definition int_to_string :: "int \<Rightarrow> jsstring" where
  "int_to_string i = (if i < 0 then js ''-'' @ nat_to_string (nat (- i)) else nat_to_string (nat i))"

text \<open>
  The decimal form of a number. It is the decimal expansion for an integer of magnitude below
  \<open>2 ^ 53\<close>. For the other finite values the language asks for the shortest digit string that
  reads back as the same number and leaves its last digit to the implementation: that part of
  the runtime is the parameter \<open>fmt\<close>.
\<close>

type_synonym number_format = "rat \<Rightarrow> jsstring"

definition number_to_string :: "number_format \<Rightarrow> number \<Rightarrow> jsstring" where
  "number_to_string fmt x =
     (case x of
        NaN \<Rightarrow> js ''NaN''
      | PosInfinity \<Rightarrow> js ''Infinity''
      | NegInfinity \<Rightarrow> js ''-Infinity''
      | NegZero \<Rightarrow> js ''0''
      | Finite q \<Rightarrow>
          if of_int \<lfloor>q\<rfloor> = q \<and> \<bar>q\<bar> < 2 ^ 53 then int_to_string \<lfloor>q\<rfloor> else fmt q)"

text \<open>\<^verbatim>\<open>String(v)\<close>. On an object it runs the object's own conversion, which may throw.\<close>

fun js_String :: "number_format \<Rightarrow> jsval \<Rightarrow> jsstring outcome" where
  "js_String fmt Undefined = Inr (js ''undefined'')"
| "js_String fmt Null = Inr (js ''null'')"
| "js_String fmt (Boolean b) = Inr (if b then js ''true'' else js ''false'')"
| "js_String fmt (Number n) = Inr (number_to_string fmt n)"
| "js_String fmt (String s) = Inr s"
| "js_String fmt (BigInt i) = Inr (int_to_string i)"
| "js_String fmt (Symbol d) = Inr (js ''Symbol('' @ d @ js '')'')"
| "js_String fmt (Object _ _ _ _ conv) = conv"

subsection \<open>getErrorMessage\<close>

text \<open>
  The declared result type is \<^verbatim>\<open>string\<close>, but the first branch returns \<^verbatim>\<open>error.message\<close> as it
  is, and the compiled code checks no type: the result is a value.
\<close>

definition getErrorMessage :: "number_format \<Rightarrow> jsval \<Rightarrow> jsval outcome" where
  "getErrorMessage fmt error =
     (case instanceof_Error error of
        Inl e \<Rightarrow> Inl e
      | Inr True \<Rightarrow> get_message error
      | Inr False \<Rightarrow>
          if typeof error = ''string'' then Inr error
          else if truthy error \<and> typeof error = ''object'' then
            (case message_in error of
               Inl e \<Rightarrow> Inl e
             | Inr True \<Rightarrow>
                 (case get_message error of
                    Inl e \<Rightarrow> Inl e
                  | Inr message \<Rightarrow>
                      (case js_String fmt message of
                         Inl e \<Rightarrow> Inl e
                       | Inr s \<Rightarrow> Inr (String s)))
             | Inr False \<Rightarrow> Inr (String (js ''Unknown error'')))
          else Inr (String (js ''Unknown error'')))"

subsection \<open>Regular expressions\<close>

text \<open>
  The constructs that the pattern of \<^verbatim>\<open>isValidEmail\<close> uses: the assertions \<^verbatim>\<open>^\<close> and \<^verbatim>\<open>$\<close>, a
  set of code units (a class or one literal character), the repetition \<^verbatim>\<open>+\<close> and the
  concatenation. The pattern has no flags: it works on code units, and the two assertions hold
  at the ends of the input only.
\<close>

datatype regex = Bol | Eol | Class "code_unit \<Rightarrow> bool" | Plus regex | Seq regex regex

definition Char :: "char \<Rightarrow> regex" where
  "Char c = Class (\<lambda>u. u = of_char c)"

text \<open>
  A state of the matcher: the input before the current position and the input after it.
  \<open>run r st\<close> lists the states in which a match of \<open>r\<close> begun in \<open>st\<close> can end, in the order
  in which the backtracking matcher tries them.
\<close>

type_synonym mstate = "jsstring \<times> jsstring"

fun repeat :: "(mstate \<Rightarrow> mstate list) \<Rightarrow> nat \<Rightarrow> mstate \<Rightarrow> mstate list" where
  "repeat f 0 st = []"
| "repeat f (Suc n) st = concat (map (\<lambda>st'. repeat f n st' @ [st']) (f st))"

text \<open>
  A repetition makes one round at least, and one more only after a round that consumed input:
  one round more than the length of the input that is left is enough to reach every end.
\<close>

primrec run :: "regex \<Rightarrow> mstate \<Rightarrow> mstate list" where
  "run Bol = (\<lambda>st. if fst st = [] then [st] else [])"
| "run Eol = (\<lambda>st. if snd st = [] then [st] else [])"
| "run (Class p) =
     (\<lambda>st. case snd st of [] \<Rightarrow> [] | u # us \<Rightarrow> if p u then [(fst st @ [u], us)] else [])"
| "run (Plus r) = (\<lambda>st. repeat (run r) (Suc (length (snd st))) st)"
| "run (Seq r1 r2) = (\<lambda>st. concat (map (run r2) (run r1 st)))"

text \<open>\<^verbatim>\<open>r.test(s)\<close>: whether \<open>r\<close> matches at some position of \<open>s\<close>, tried from the left.\<close>

definition regex_test :: "regex \<Rightarrow> jsstring \<Rightarrow> bool" where
  "regex_test r s = list_ex (\<lambda>i. run r (take i s, drop i s) \<noteq> []) [0..<Suc (length s)]"

text \<open>
  The class \<^verbatim>\<open>\s\<close>: the white space and the line terminators of the language.
\<close>

definition is_whitespace :: "code_unit \<Rightarrow> bool" where
  "is_whitespace u =
     (u = 0x0009 \<or> u = 0x000A \<or> u = 0x000B \<or> u = 0x000C \<or> u = 0x000D \<or> u = 0x0020
      \<or> u = 0x00A0 \<or> u = 0x1680 \<or> (0x2000 \<le> u \<and> u \<le> 0x200A) \<or> u = 0x2028
      \<or> u = 0x2029 \<or> u = 0x202F \<or> u = 0x205F \<or> u = 0x3000 \<or> u = 0xFEFF)"

text \<open>The class \<^verbatim>\<open>[^\s@]\<close>.\<close>

definition not_space_at :: "code_unit \<Rightarrow> bool" where
  "not_space_at u = (\<not> (is_whitespace u \<or> u = of_char CHR ''@''))"

subsection \<open>isValidEmail\<close>

text \<open>\<^verbatim>\<open>/^[^\s@]+@[^\s@]+\.[^\s@]+$/\<close>\<close>

definition emailRegex :: regex where
  "emailRegex =
     Seq Bol (Seq (Plus (Class not_space_at)) (Seq (Char CHR ''@'')
       (Seq (Plus (Class not_space_at)) (Seq (Char CHR ''.'')
         (Seq (Plus (Class not_space_at)) Eol)))))"

definition isValidEmail :: "jsstring \<Rightarrow> bool" where
  "isValidEmail email = regex_test emailRegex email"

text \<open>
  The shape as the specification words it: one or more characters that are neither white
  space nor \<^verbatim>\<open>@\<close>, then \<^verbatim>\<open>@\<close>, then one or more such characters, then a dot, then one or more
  such characters, and nothing before or after.
\<close>

definition email_shape :: "jsstring \<Rightarrow> bool" where
  "email_shape email =
     (\<exists>x y z. email = x @ js ''@'' @ y @ js ''.'' @ z
        \<and> x \<noteq> [] \<and> y \<noteq> [] \<and> z \<noteq> []
        \<and> list_all not_space_at x \<and> list_all not_space_at y \<and> list_all not_space_at z)"

subsection \<open>capitalize\<close>

text \<open>
  \<^verbatim>\<open>s.toUpperCase()\<close> maps the letters \<^verbatim>\<open>a\<close> to \<^verbatim>\<open>z\<close> to \<^verbatim>\<open>A\<close> to \<^verbatim>\<open>Z\<close> and leaves the other ASCII
  characters alone. Outside ASCII it follows the case mappings of the Unicode Character
  Database, which may give several code units for one; that table belongs to the runtime and
  is the parameter \<open>unicode\<close>, the conversion of a string with a code unit beyond ASCII.
\<close>

type_synonym case_conversion = "jsstring \<Rightarrow> jsstring"

definition is_ascii :: "code_unit \<Rightarrow> bool" where
  "is_ascii u = (u < 0x80)"

definition ascii_upper :: "code_unit \<Rightarrow> code_unit" where
  "ascii_upper u = (if 0x61 \<le> u \<and> u \<le> 0x7A then u - 0x20 else u)"

definition toUpperCase :: "case_conversion \<Rightarrow> jsstring \<Rightarrow> jsstring" where
  "toUpperCase unicode s = (if list_all is_ascii s then map ascii_upper s else unicode s)"

text \<open>\<^verbatim>\<open>s.charAt(i)\<close>: the empty string when \<open>i\<close> is out of range.\<close>

definition charAt :: "jsstring \<Rightarrow> nat \<Rightarrow> jsstring" where
  "charAt s i = (if i < length s then [s ! i] else [])"

text \<open>\<^verbatim>\<open>s.slice(i)\<close>, for a start \<open>i\<close> that is not negative.\<close>

definition slice :: "jsstring \<Rightarrow> nat \<Rightarrow> jsstring" where
  "slice s i = drop i s"

definition capitalize :: "case_conversion \<Rightarrow> jsstring \<Rightarrow> jsstring" where
  "capitalize unicode str =
     (if str = [] then str else toUpperCase unicode (charAt str 0) @ slice str 1)"

subsection \<open>The upper case of the Unicode Character Database\<close>

text \<open>
  The case table that \<^verbatim>\<open>toUpperCase\<close> follows outside ASCII, as the Unicode Character Database
  of version 14.0 gives it: the simple upper-case mappings of \<^verbatim>\<open>UnicodeData.txt\<close> and the
  unconditional mappings of \<^verbatim>\<open>SpecialCasing.txt\<close> to several characters. An entry
  \<open>(lo, hi, step, offset, tail)\<close> covers the code points \<open>lo\<close>, \<open>lo + step\<close> and so on up to \<open>hi\<close>;
  the upper case of such a code point \<open>c\<close> is \<open>c + offset\<close> followed by \<open>tail\<close>. A code point that
  no entry covers is its own upper case. The entries are in ascending order. Later versions
  of the database add entries, for characters that this version leaves unassigned or without
  an upper case.
\<close>

type_synonym case_entry = "int \<times> int \<times> int \<times> int \<times> int list"

definition upper_entries :: "case_entry list" where
  "upper_entries =
    [(0x0061, 0x007A, 1, - 32, []), (0x00B5, 0x00B5, 1, 743, []),
     (0x00DF, 0x00DF, 1, - 140, [0x0053]), (0x00E0, 0x00F6, 1, - 32, []),
     (0x00F8, 0x00FE, 1, - 32, []), (0x00FF, 0x00FF, 1, 121, []), (0x0101, 0x012F, 2, - 1, []),
     (0x0131, 0x0131, 1, - 232, []), (0x0133, 0x0137, 2, - 1, []), (0x013A, 0x0148, 2, - 1, []),
     (0x0149, 0x0149, 1, 371, [0x004E]), (0x014B, 0x0177, 2, - 1, []),
     (0x017A, 0x017E, 2, - 1, []), (0x017F, 0x017F, 1, - 300, []), (0x0180, 0x0180, 1, 195, []),
     (0x0183, 0x0185, 2, - 1, []), (0x0188, 0x0188, 1, - 1, []), (0x018C, 0x018C, 1, - 1, []),
     (0x0192, 0x0192, 1, - 1, []), (0x0195, 0x0195, 1, 97, []), (0x0199, 0x0199, 1, - 1, []),
     (0x019A, 0x019A, 1, 163, []), (0x019E, 0x019E, 1, 130, []), (0x01A1, 0x01A5, 2, - 1, []),
     (0x01A8, 0x01A8, 1, - 1, []), (0x01AD, 0x01AD, 1, - 1, []), (0x01B0, 0x01B0, 1, - 1, []),
     (0x01B4, 0x01B6, 2, - 1, []), (0x01B9, 0x01B9, 1, - 1, []), (0x01BD, 0x01BD, 1, - 1, []),
     (0x01BF, 0x01BF, 1, 56, []), (0x01C5, 0x01C5, 1, - 1, []), (0x01C6, 0x01C6, 1, - 2, []),
     (0x01C8, 0x01C8, 1, - 1, []), (0x01C9, 0x01C9, 1, - 2, []), (0x01CB, 0x01CB, 1, - 1, []),
     (0x01CC, 0x01CC, 1, - 2, []), (0x01CE, 0x01DC, 2, - 1, []), (0x01DD, 0x01DD, 1, - 79, []),
     (0x01DF, 0x01EF, 2, - 1, []), (0x01F0, 0x01F0, 1, - 422, [0x030C]),
     (0x01F2, 0x01F2, 1, - 1, []), (0x01F3, 0x01F3, 1, - 2, []), (0x01F5, 0x01F5, 1, - 1, []),
     (0x01F9, 0x021F, 2, - 1, []), (0x0223, 0x0233, 2, - 1, []), (0x023C, 0x023C, 1, - 1, []),
     (0x023F, 0x0240, 1, 10815, []), (0x0242, 0x0242, 1, - 1, []), (0x0247, 0x024F, 2, - 1, []),
     (0x0250, 0x0250, 1, 10783, []), (0x0251, 0x0251, 1, 10780, []),
     (0x0252, 0x0252, 1, 10782, []), (0x0253, 0x0253, 1, - 210, []),
     (0x0254, 0x0254, 1, - 206, []), (0x0256, 0x0257, 1, - 205, []),
     (0x0259, 0x0259, 1, - 202, []), (0x025B, 0x025B, 1, - 203, []),
     (0x025C, 0x025C, 1, 42319, []), (0x0260, 0x0260, 1, - 205, []),
     (0x0261, 0x0261, 1, 42315, []), (0x0263, 0x0263, 1, - 207, []),
     (0x0265, 0x0265, 1, 42280, []), (0x0266, 0x0266, 1, 42308, []),
     (0x0268, 0x0268, 1, - 209, []), (0x0269, 0x0269, 1, - 211, []),
     (0x026A, 0x026A, 1, 42308, []), (0x026B, 0x026B, 1, 10743, []),
     (0x026C, 0x026C, 1, 42305, []), (0x026F, 0x026F, 1, - 211, []),
     (0x0271, 0x0271, 1, 10749, []), (0x0272, 0x0272, 1, - 213, []),
     (0x0275, 0x0275, 1, - 214, []), (0x027D, 0x027D, 1, 10727, []),
     (0x0280, 0x0280, 1, - 218, []), (0x0282, 0x0282, 1, 42307, []),
     (0x0283, 0x0283, 1, - 218, []), (0x0287, 0x0287, 1, 42282, []),
     (0x0288, 0x0288, 1, - 218, []), (0x0289, 0x0289, 1, - 69, []),
     (0x028A, 0x028B, 1, - 217, []), (0x028C, 0x028C, 1, - 71, []),
     (0x0292, 0x0292, 1, - 219, []), (0x029D, 0x029D, 1, 42261, []),
     (0x029E, 0x029E, 1, 42258, []), (0x0345, 0x0345, 1, 84, []), (0x0371, 0x0373, 2, - 1, []),
     (0x0377, 0x0377, 1, - 1, []), (0x037B, 0x037D, 1, 130, []),
     (0x0390, 0x0390, 1, 9, [0x0308, 0x0301]), (0x03AC, 0x03AC, 1, - 38, []),
     (0x03AD, 0x03AF, 1, - 37, []), (0x03B0, 0x03B0, 1, - 11, [0x0308, 0x0301]),
     (0x03B1, 0x03C1, 1, - 32, []), (0x03C2, 0x03C2, 1, - 31, []), (0x03C3, 0x03CB, 1, - 32, []),
     (0x03CC, 0x03CC, 1, - 64, []), (0x03CD, 0x03CE, 1, - 63, []), (0x03D0, 0x03D0, 1, - 62, []),
     (0x03D1, 0x03D1, 1, - 57, []), (0x03D5, 0x03D5, 1, - 47, []), (0x03D6, 0x03D6, 1, - 54, []),
     (0x03D7, 0x03D7, 1, - 8, []), (0x03D9, 0x03EF, 2, - 1, []), (0x03F0, 0x03F0, 1, - 86, []),
     (0x03F1, 0x03F1, 1, - 80, []), (0x03F2, 0x03F2, 1, 7, []), (0x03F3, 0x03F3, 1, - 116, []),
     (0x03F5, 0x03F5, 1, - 96, []), (0x03F8, 0x03F8, 1, - 1, []), (0x03FB, 0x03FB, 1, - 1, []),
     (0x0430, 0x044F, 1, - 32, []), (0x0450, 0x045F, 1, - 80, []), (0x0461, 0x0481, 2, - 1, []),
     (0x048B, 0x04BF, 2, - 1, []), (0x04C2, 0x04CE, 2, - 1, []), (0x04CF, 0x04CF, 1, - 15, []),
     (0x04D1, 0x052F, 2, - 1, []), (0x0561, 0x0586, 1, - 48, []),
     (0x0587, 0x0587, 1, - 82, [0x0552]), (0x10D0, 0x10FA, 1, 3008, []),
     (0x10FD, 0x10FF, 1, 3008, []), (0x13F8, 0x13FD, 1, - 8, []),
     (0x1C80, 0x1C80, 1, - 6254, []), (0x1C81, 0x1C81, 1, - 6253, []),
     (0x1C82, 0x1C82, 1, - 6244, []), (0x1C83, 0x1C84, 1, - 6242, []),
     (0x1C85, 0x1C85, 1, - 6243, []), (0x1C86, 0x1C86, 1, - 6236, []),
     (0x1C87, 0x1C87, 1, - 6181, []), (0x1C88, 0x1C88, 1, 35266, []),
     (0x1D79, 0x1D79, 1, 35332, []), (0x1D7D, 0x1D7D, 1, 3814, []),
     (0x1D8E, 0x1D8E, 1, 35384, []), (0x1E01, 0x1E95, 2, - 1, []),
     (0x1E96, 0x1E96, 1, - 7758, [0x0331]), (0x1E97, 0x1E97, 1, - 7747, [0x0308]),
     (0x1E98, 0x1E98, 1, - 7745, [0x030A]), (0x1E99, 0x1E99, 1, - 7744, [0x030A]),
     (0x1E9A, 0x1E9A, 1, - 7769, [0x02BE]), (0x1E9B, 0x1E9B, 1, - 59, []),
     (0x1EA1, 0x1EFF, 2, - 1, []), (0x1F00, 0x1F07, 1, 8, []), (0x1F10, 0x1F15, 1, 8, []),
     (0x1F20, 0x1F27, 1, 8, []), (0x1F30, 0x1F37, 1, 8, []), (0x1F40, 0x1F45, 1, 8, []),
     (0x1F50, 0x1F50, 1, - 7083, [0x0313]), (0x1F51, 0x1F51, 1, 8, []),
     (0x1F52, 0x1F52, 1, - 7085, [0x0313, 0x0300]), (0x1F53, 0x1F53, 1, 8, []),
     (0x1F54, 0x1F54, 1, - 7087, [0x0313, 0x0301]), (0x1F55, 0x1F55, 1, 8, []),
     (0x1F56, 0x1F56, 1, - 7089, [0x0313, 0x0342]), (0x1F57, 0x1F57, 1, 8, []),
     (0x1F60, 0x1F67, 1, 8, []), (0x1F70, 0x1F71, 1, 74, []), (0x1F72, 0x1F75, 1, 86, []),
     (0x1F76, 0x1F77, 1, 100, []), (0x1F78, 0x1F79, 1, 128, []), (0x1F7A, 0x1F7B, 1, 112, []),
     (0x1F7C, 0x1F7D, 1, 126, []), (0x1F80, 0x1F80, 1, - 120, [0x0399]),
     (0x1F81, 0x1F81, 1, - 120, [0x0399]), (0x1F82, 0x1F82, 1, - 120, [0x0399]),
     (0x1F83, 0x1F83, 1, - 120, [0x0399]), (0x1F84, 0x1F84, 1, - 120, [0x0399]),
     (0x1F85, 0x1F85, 1, - 120, [0x0399]), (0x1F86, 0x1F86, 1, - 120, [0x0399]),
     (0x1F87, 0x1F87, 1, - 120, [0x0399]), (0x1F88, 0x1F88, 1, - 128, [0x0399]),
     (0x1F89, 0x1F89, 1, - 128, [0x0399]), (0x1F8A, 0x1F8A, 1, - 128, [0x0399]),
     (0x1F8B, 0x1F8B, 1, - 128, [0x0399]), (0x1F8C, 0x1F8C, 1, - 128, [0x0399]),
     (0x1F8D, 0x1F8D, 1, - 128, [0x0399]), (0x1F8E, 0x1F8E, 1, - 128, [0x0399]),
     (0x1F8F, 0x1F8F, 1, - 128, [0x0399]), (0x1F90, 0x1F90, 1, - 104, [0x0399]),
     (0x1F91, 0x1F91, 1, - 104, [0x0399]), (0x1F92, 0x1F92, 1, - 104, [0x0399]),
     (0x1F93, 0x1F93, 1, - 104, [0x0399]), (0x1F94, 0x1F94, 1, - 104, [0x0399]),
     (0x1F95, 0x1F95, 1, - 104, [0x0399]), (0x1F96, 0x1F96, 1, - 104, [0x0399]),
     (0x1F97, 0x1F97, 1, - 104, [0x0399]), (0x1F98, 0x1F98, 1, - 112, [0x0399]),
     (0x1F99, 0x1F99, 1, - 112, [0x0399]), (0x1F9A, 0x1F9A, 1, - 112, [0x0399]),
     (0x1F9B, 0x1F9B, 1, - 112, [0x0399]), (0x1F9C, 0x1F9C, 1, - 112, [0x0399]),
     (0x1F9D, 0x1F9D, 1, - 112, [0x0399]), (0x1F9E, 0x1F9E, 1, - 112, [0x0399]),
     (0x1F9F, 0x1F9F, 1, - 112, [0x0399]), (0x1FA0, 0x1FA0, 1, - 56, [0x0399]),
     (0x1FA1, 0x1FA1, 1, - 56, [0x0399]), (0x1FA2, 0x1FA2, 1, - 56, [0x0399]),
     (0x1FA3, 0x1FA3, 1, - 56, [0x0399]), (0x1FA4, 0x1FA4, 1, - 56, [0x0399]),
     (0x1FA5, 0x1FA5, 1, - 56, [0x0399]), (0x1FA6, 0x1FA6, 1, - 56, [0x0399]),
     (0x1FA7, 0x1FA7, 1, - 56, [0x0399]), (0x1FA8, 0x1FA8, 1, - 64, [0x0399]),
     (0x1FA9, 0x1FA9, 1, - 64, [0x0399]), (0x1FAA, 0x1FAA, 1, - 64, [0x0399]),
     (0x1FAB, 0x1FAB, 1, - 64, [0x0399]), (0x1FAC, 0x1FAC, 1, - 64, [0x0399]),
     (0x1FAD, 0x1FAD, 1, - 64, [0x0399]), (0x1FAE, 0x1FAE, 1, - 64, [0x0399]),
     (0x1FAF, 0x1FAF, 1, - 64, [0x0399]), (0x1FB0, 0x1FB1, 1, 8, []),
     (0x1FB2, 0x1FB2, 1, 8, [0x0399]), (0x1FB3, 0x1FB3, 1, - 7202, [0x0399]),
     (0x1FB4, 0x1FB4, 1, - 7214, [0x0399]), (0x1FB6, 0x1FB6, 1, - 7205, [0x0342]),
     (0x1FB7, 0x1FB7, 1, - 7206, [0x0342, 0x0399]), (0x1FBC, 0x1FBC, 1, - 7211, [0x0399]),
     (0x1FBE, 0x1FBE, 1, - 7205, []), (0x1FC2, 0x1FC2, 1, 8, [0x0399]),
     (0x1FC3, 0x1FC3, 1, - 7212, [0x0399]), (0x1FC4, 0x1FC4, 1, - 7227, [0x0399]),
     (0x1FC6, 0x1FC6, 1, - 7215, [0x0342]), (0x1FC7, 0x1FC7, 1, - 7216, [0x0342, 0x0399]),
     (0x1FCC, 0x1FCC, 1, - 7221, [0x0399]), (0x1FD0, 0x1FD1, 1, 8, []),
     (0x1FD2, 0x1FD2, 1, - 7225, [0x0308, 0x0300]),
     (0x1FD3, 0x1FD3, 1, - 7226, [0x0308, 0x0301]), (0x1FD6, 0x1FD6, 1, - 7229, [0x0342]),
     (0x1FD7, 0x1FD7, 1, - 7230, [0x0308, 0x0342]), (0x1FE0, 0x1FE1, 1, 8, []),
     (0x1FE2, 0x1FE2, 1, - 7229, [0x0308, 0x0300]),
     (0x1FE3, 0x1FE3, 1, - 7230, [0x0308, 0x0301]), (0x1FE4, 0x1FE4, 1, - 7235, [0x0313]),
     (0x1FE5, 0x1FE5, 1, 7, []), (0x1FE6, 0x1FE6, 1, - 7233, [0x0342]),
     (0x1FE7, 0x1FE7, 1, - 7234, [0x0308, 0x0342]), (0x1FF2, 0x1FF2, 1, 8, [0x0399]),
     (0x1FF3, 0x1FF3, 1, - 7242, [0x0399]), (0x1FF4, 0x1FF4, 1, - 7269, [0x0399]),
     (0x1FF6, 0x1FF6, 1, - 7245, [0x0342]), (0x1FF7, 0x1FF7, 1, - 7246, [0x0342, 0x0399]),
     (0x1FFC, 0x1FFC, 1, - 7251, [0x0399]), (0x214E, 0x214E, 1, - 28, []),
     (0x2170, 0x217F, 1, - 16, []), (0x2184, 0x2184, 1, - 1, []), (0x24D0, 0x24E9, 1, - 26, []),
     (0x2C30, 0x2C5F, 1, - 48, []), (0x2C61, 0x2C61, 1, - 1, []),
     (0x2C65, 0x2C65, 1, - 10795, []), (0x2C66, 0x2C66, 1, - 10792, []),
     (0x2C68, 0x2C6C, 2, - 1, []), (0x2C73, 0x2C73, 1, - 1, []), (0x2C76, 0x2C76, 1, - 1, []),
     (0x2C81, 0x2CE3, 2, - 1, []), (0x2CEC, 0x2CEE, 2, - 1, []), (0x2CF3, 0x2CF3, 1, - 1, []),
     (0x2D00, 0x2D25, 1, - 7264, []), (0x2D27, 0x2D27, 1, - 7264, []),
     (0x2D2D, 0x2D2D, 1, - 7264, []), (0xA641, 0xA66D, 2, - 1, []), (0xA681, 0xA69B, 2, - 1, []),
     (0xA723, 0xA72F, 2, - 1, []), (0xA733, 0xA76F, 2, - 1, []), (0xA77A, 0xA77C, 2, - 1, []),
     (0xA77F, 0xA787, 2, - 1, []), (0xA78C, 0xA78C, 1, - 1, []), (0xA791, 0xA793, 2, - 1, []),
     (0xA794, 0xA794, 1, 48, []), (0xA797, 0xA7A9, 2, - 1, []), (0xA7B5, 0xA7C3, 2, - 1, []),
     (0xA7C8, 0xA7CA, 2, - 1, []), (0xA7D1, 0xA7D1, 1, - 1, []), (0xA7D7, 0xA7D9, 2, - 1, []),
     (0xA7F6, 0xA7F6, 1, - 1, []), (0xAB53, 0xAB53, 1, - 928, []),
     (0xAB70, 0xABBF, 1, - 38864, []), (0xFB00, 0xFB00, 1, - 64186, [0x0046]),
     (0xFB01, 0xFB01, 1, - 64187, [0x0049]), (0xFB02, 0xFB02, 1, - 64188, [0x004C]),
     (0xFB03, 0xFB03, 1, - 64189, [0x0046, 0x0049]),
     (0xFB04, 0xFB04, 1, - 64190, [0x0046, 0x004C]), (0xFB05, 0xFB05, 1, - 64178, [0x0054]),
     (0xFB06, 0xFB06, 1, - 64179, [0x0054]), (0xFB13, 0xFB13, 1, - 62927, [0x0546]),
     (0xFB14, 0xFB14, 1, - 62928, [0x0535]), (0xFB15, 0xFB15, 1, - 62929, [0x053B]),
     (0xFB16, 0xFB16, 1, - 62920, [0x0546]), (0xFB17, 0xFB17, 1, - 62931, [0x053D]),
     (0xFF41, 0xFF5A, 1, - 32, []), (0x10428, 0x1044F, 1, - 40, []),
     (0x104D8, 0x104FB, 1, - 40, []), (0x10597, 0x105A1, 1, - 39, []),
     (0x105A3, 0x105B1, 1, - 39, []), (0x105B3, 0x105B9, 1, - 39, []),
     (0x105BB, 0x105BC, 1, - 39, []), (0x10CC0, 0x10CF2, 1, - 64, []),
     (0x118C0, 0x118DF, 1, - 32, []), (0x16E60, 0x16E7F, 1, - 32, []),
     (0x1E922, 0x1E943, 1, - 34, [])]"

definition in_entry :: "int \<Rightarrow> case_entry \<Rightarrow> bool" where
  "in_entry c e =
     (case e of (lo, hi, step, offset, tail) \<Rightarrow> lo \<le> c \<and> c \<le> hi \<and> (c - lo) mod step = 0)"

definition upper_code_point :: "int \<Rightarrow> int list" where
  "upper_code_point c =
     (case find (in_entry c) upper_entries of
        Some (lo, hi, step, offset, tail) \<Rightarrow> (c + offset) # tail
      | None \<Rightarrow> [c])"

text \<open>
  The code points of a string: two code units that form a surrogate pair make one code point
  beyond \<open>0xFFFF\<close>, and every other code unit, a lone surrogate too, is a code point by itself.
\<close>

definition is_high_surrogate :: "code_unit \<Rightarrow> bool" where
  "is_high_surrogate u = (0xD800 \<le> u \<and> u \<le> 0xDBFF)"

definition is_low_surrogate :: "code_unit \<Rightarrow> bool" where
  "is_low_surrogate u = (0xDC00 \<le> u \<and> u \<le> 0xDFFF)"

fun code_points :: "jsstring \<Rightarrow> int list" where
  "code_points (h # l # us) =
     (if is_high_surrogate h \<and> is_low_surrogate l
      then (0x10000 + (uint h - 0xD800) * 0x400 + (uint l - 0xDC00)) # code_points us
      else uint h # code_points (l # us))"
| "code_points [u] = [uint u]"
| "code_points [] = []"

fun code_units :: "int list \<Rightarrow> jsstring" where
  "code_units [] = []"
| "code_units (c # cs) =
     (if c < 0x10000 then [word_of_int c]
      else [word_of_int (0xD800 + (c - 0x10000) div 0x400),
            word_of_int (0xDC00 + (c - 0x10000) mod 0x400)])
     @ code_units cs"

text \<open>\<^verbatim>\<open>s.toUpperCase()\<close> for any string: code point by code point.\<close>

definition unicode_upper :: case_conversion where
  "unicode_upper s = code_units (concat (map upper_code_point (code_points s)))"

text \<open>
  A conversion is closed when the upper case of a code unit beyond ASCII begins with a code
  unit that is its own upper case.
\<close>

definition upper_closed :: "case_conversion \<Rightarrow> bool" where
  "upper_closed unicode =
     (\<forall>u. \<not> is_ascii u \<longrightarrow>
        (\<exists>v vs. unicode [u] = v # vs \<and> toUpperCase unicode [v] = [v]))"

text \<open>
  A search tree over the entries of the table, and the test that no entry of the tree covers
  a code point of the segment \<open>(lo, hi, step)\<close>: the two are apart when one ends before the other
  begins, or when they hold code points of different parity.
\<close>

datatype 'a tree = Leaf | Node "'a tree" 'a "'a tree"

fun build :: "nat \<Rightarrow> 'a list \<Rightarrow> 'a tree \<times> 'a list" where
  "build n xs =
     (if n = 0 then (Leaf, xs)
      else
        (case build (n div 2) xs of
           (l, ys) \<Rightarrow>
             (case ys of
                [] \<Rightarrow> (l, [])
              | y # ys' \<Rightarrow>
                  (case build (n - 1 - n div 2) ys' of (r, zs) \<Rightarrow> (Node l y r, zs)))))"

declare build.simps [simp del]

fun ordered :: "int \<Rightarrow> case_entry tree \<Rightarrow> int \<Rightarrow> bool" where
  "ordered a Leaf b = True"
| "ordered a (Node l (lo, hi, step, offset, tail) r) b =
     (a < lo \<and> lo \<le> hi \<and> hi < b \<and> ordered a l lo \<and> ordered hi r b)"

definition parity_apart :: "int \<times> int \<times> int \<Rightarrow> case_entry \<Rightarrow> bool" where
  "parity_apart seg e =
     (case seg of (lo, hi, step) \<Rightarrow>
        case e of (lo', hi', step', offset, tail) \<Rightarrow>
          (step = 2 \<or> lo = hi) \<and> (step' = 2 \<or> lo' = hi') \<and> lo mod 2 \<noteq> lo' mod 2)"

fun clear :: "int \<times> int \<times> int \<Rightarrow> case_entry tree \<Rightarrow> bool" where
  "clear seg Leaf = True"
| "clear (lo, hi, step) (Node l (lo', hi', step', offset, tail) r) =
     (if hi < lo' then clear (lo, hi, step) l
      else if hi' < lo then clear (lo, hi, step) r
      else parity_apart (lo, hi, step) (lo', hi', step', offset, tail)
           \<and> clear (lo, hi, step) l \<and> clear (lo, hi, step) r)"

text \<open>
  The test of the whole table: the tree holds every entry, in order, and the first code points
  of the upper case of what an entry of the Basic Multilingual Plane covers are in that plane
  and apart from every entry.
\<close>

definition entry_closed :: "case_entry tree \<Rightarrow> case_entry \<Rightarrow> bool" where
  "entry_closed t e =
     (case e of (lo, hi, step, offset, tail) \<Rightarrow>
        0x10000 \<le> lo \<or> (0 \<le> lo + offset \<and> hi + offset < 0x10000 \<and> clear (lo + offset, hi + offset, step) t))"

definition table_closed :: "case_entry list \<Rightarrow> bool" where
  "table_closed es =
     (case build (length es) es of
        (t, rest) \<Rightarrow> rest = [] \<and> ordered (- 1) t 0x110000 \<and> list_all (entry_closed t) es)"

section \<open>Properties of the arithmetic\<close>

subsection \<open>The binary exponent\<close>

lemma pow2_powi: "pow2 e = 2 powi e"
  by (simp add: pow2_def power_int_def inverse_eq_divide power_one_over)

lemma pow2_pos: "0 < pow2 e"
  by (simp add: pow2_powi)

lemma pow2_add: "pow2 (m + n) = pow2 m * pow2 n"
  by (simp add: pow2_powi power_int_add)

lemma pow2_nat: "0 \<le> e \<Longrightarrow> pow2 e = of_int (2 ^ nat e)"
  by (simp add: pow2_def)

lemma ilog2_bounds:
  assumes "0 < q"
  shows "pow2 (ilog2 q) \<le> q \<and> q < pow2 (ilog2 q + 1)"
proof -
  obtain a b where ab: "quotient_of q = (a, b)"
    by (cases "quotient_of q")
  then have b: "0 < b" and q: "q = of_int a / of_int b"
    by (auto dest: quotient_of_denom_pos quotient_of_div)
  with assms have a: "0 < a"
    by (simp add: zero_less_divide_iff)
  define la lb where "la = bitlen a" and "lb = bitlen b"
  have la: "1 \<le> la" and lb: "1 \<le> lb"
    using a b by (simp_all add: la_def lb_def bitlen_alt_def)
  from bitlen_bounds [OF a] have "2 ^ nat (la - 1) \<le> a" "a < 2 ^ nat la"
    by (simp_all add: la_def)
  then have a_lo: "pow2 (la - 1) \<le> of_int a" and a_hi: "of_int a < pow2 la"
    using la by (simp_all add: pow2_nat del: of_int_power) 
  from bitlen_bounds [OF b] have "2 ^ nat (lb - 1) \<le> b" "b < 2 ^ nat lb"
    by (simp_all add: lb_def)
  then have b_lo: "pow2 (lb - 1) \<le> of_int b" and b_hi: "of_int b < pow2 lb"
    using lb by (simp_all add: pow2_nat del: of_int_power)
  have bpos: "(0::rat) < of_int b" using b by simp
  have "q * of_int b < pow2 la"
    using a_hi bpos by (simp add: q)
  also have "pow2 la = pow2 (la - lb + 1) * pow2 (lb - 1)"
    by (simp add: pow2_add [symmetric])
  also have "\<dots> \<le> pow2 (la - lb + 1) * of_int b"
    using b_lo pow2_pos [of "la - lb + 1"] by simp
  finally have hi: "q < pow2 (la - lb + 1)"
    using bpos by simp
  have "pow2 (la - lb - 1) * of_int b \<le> pow2 (la - lb - 1) * pow2 lb"
    using b_hi pow2_pos [of "la - lb - 1"] by simp
  also have "\<dots> = pow2 (la - 1)"
    by (simp add: pow2_add [symmetric])
  also have "\<dots> \<le> q * of_int b"
    using a_lo bpos by (simp add: q)
  finally have lo: "pow2 (la - lb - 1) \<le> q"
    using bpos by simp
  have "ilog2 q = (if pow2 (la - lb) \<le> q then la - lb else la - lb - 1)"
    by (simp add: ilog2_def ab la_def lb_def Let_def)
  with lo hi show ?thesis
    by (auto simp: not_le)
qed

subsection \<open>Rounding leaves small integers alone\<close>

lemma round_half_even_of_int: "round_half_even (of_int m) = m"
  by (simp add: round_half_even_def)

lemma quotient_of_of_int: "quotient_of (of_int n) = (n, 1)"
  using quotient_of_int [of n] by (simp add: Rat.of_int_def)

lemma bitlen_one: "bitlen 1 = 1"
  by (simp add: bitlen_alt_def)

lemma ilog2_of_int_le:
  assumes "n < 2 ^ 53"
  shows "ilog2 (of_int n) \<le> 52"
proof -
  have "bitlen n \<le> 53"
    using assms by (simp add: bitlen_le_iff_power)
  then show ?thesis
    by (simp add: ilog2_def quotient_of_of_int bitlen_one Let_def)
qed

lemma pow2_nonpos: "e \<le> 0 \<Longrightarrow> pow2 e = 1 / 2 ^ nat (- e)"
  by (simp add: pow2_def)

lemma round_magnitude_of_int:
  assumes "0 < n" and "n < 2 ^ 53"
  shows "round_magnitude (of_int n) = Some (of_int n)"
proof -
  define e where "e = max (ilog2 (of_int n) - 52) (- 1074)"
  have e: "e \<le> 0"
    using ilog2_of_int_le [OF assms(2)] by (simp add: e_def)
  have scaled: "of_int n / pow2 e = of_int (n * 2 ^ nat (- e))"
    using e by (simp add: pow2_nonpos)
  have unscaled: "of_int (n * 2 ^ nat (- e)) * pow2 e = (of_int n :: rat)"
    using e by (simp add: pow2_nonpos)
  have "(of_int n :: rat) < of_int (2 ^ 53)"
    using assms(2) by (simp only: of_int_less_iff)
  also have "\<dots> \<le> pow2 1024"
    by (simp add: pow2_def)
  finally have small: "\<not> pow2 1024 \<le> (of_int n :: rat)"
    by simp
  show ?thesis
    unfolding round_magnitude_def Let_def e_def [symmetric] scaled round_half_even_of_int unscaled
    using small by simp
qed

lemma to_double_of_int:
  assumes "\<bar>n\<bar> < 2 ^ 53"
  shows "to_double (of_int n) = Finite (of_int n)"
proof -
  consider "n = 0" | "0 < n" | "n < 0" by linarith
  then show ?thesis
  proof cases
    case 1
    then show ?thesis by (simp add: to_double_def)
  next
    case 2
    with assms have "round_magnitude (of_int n) = Some (of_int n)"
      by (intro round_magnitude_of_int) auto
    with 2 show ?thesis by (simp add: to_double_def)
  next
    case 3
    with assms have "round_magnitude (of_int (- n)) = Some (of_int (- n))"
      by (intro round_magnitude_of_int) auto
    with 3 show ?thesis by (simp add: to_double_def)
  qed
qed

section \<open>Properties of the calculator\<close>

lemma strict_eq_zero: "num_strict_eq n (Finite 0) \<longleftrightarrow> n = Finite 0 \<or> n = NegZero"
  by (cases n) (auto simp: num_strict_eq_def is_inf_def)

lemmas Calculator_defs =
  Calculator_add_def Calculator_subtract_def Calculator_multiply_def Calculator_divide_def
  Calculator_getValue_def Calculator_reset_def Calculator_setValue_def Calculator_isEven_def
  Calculator_isPositive_def

text \<open>
  Claim C1. \<^verbatim>\<open>divide\<close> throws exactly when its divisor is a zero (\<^verbatim>\<open>n === 0\<close> holds of both
  zeros and of nothing else), what it throws is the division-by-zero error, and the receiver
  is then as it was; with any other divisor it returns, having divided the value. The
  constructor and all the other methods return on every input.
\<close>

theorem divide_by_zero_only_failure:
  "((\<exists>e. fst (Calculator_divide n c) = Throw e) \<longleftrightarrow> n = Finite 0 \<or> n = NegZero)
   \<and> (fst (Calculator_divide n c) = Throw DivisionByZero \<longleftrightarrow> n = Finite 0 \<or> n = NegZero)
   \<and> (n = Finite 0 \<or> n = NegZero \<longrightarrow> snd (Calculator_divide n c) = c)
   \<and> (n \<noteq> Finite 0 \<and> n \<noteq> NegZero \<longrightarrow>
        Calculator_divide n c = (Normal (), c\<lparr>value' := num_div (value' c) n\<rparr>))
   \<and> (\<exists>calc. new_Calculator init = Normal calc)
   \<and> fst (Calculator_add n c) = Normal ()
   \<and> fst (Calculator_subtract n c) = Normal ()
   \<and> fst (Calculator_multiply n c) = Normal ()
   \<and> fst (Calculator_setValue n c) = Normal ()
   \<and> fst (Calculator_reset c) = Normal ()
   \<and> (\<exists>v. fst (Calculator_getValue c) = Normal v)
   \<and> (\<exists>b. fst (Calculator_isEven c) = Normal b)
   \<and> (\<exists>b. fst (Calculator_isPositive c) = Normal b)"
  by (simp add: Calculator_defs new_Calculator_def strict_eq_zero)

theorem divide_by_zero_only_failure_witness:
  "fst (Calculator_divide (Finite 0) \<lparr>value' = Finite 7\<rparr>) = Throw DivisionByZero
   \<and> snd (Calculator_divide (Finite 0) \<lparr>value' = Finite 7\<rparr>) = \<lparr>value' = Finite 7\<rparr>
   \<and> snd (Calculator_divide NegZero \<lparr>value' = Finite 7\<rparr>) = \<lparr>value' = Finite 7\<rparr>
   \<and> Calculator_divide NaN \<lparr>value' = Finite 7\<rparr> = (Normal (), \<lparr>value' = NaN\<rparr>)"
  using divide_by_zero_only_failure [of "Finite 0" "\<lparr>value' = Finite 7\<rparr>"]
    divide_by_zero_only_failure [of NegZero "\<lparr>value' = Finite 7\<rparr>"]
    divide_by_zero_only_failure [of NaN "\<lparr>value' = Finite 7\<rparr>"]
  by (simp add: num_div_def)

lemma trunc_of_int: "trunc (of_int k) = k"
  by (simp add: trunc_def)

lemma rem_two_zero_iff:
  "q - 2 * of_int (trunc (q / 2)) = 0 \<longleftrightarrow> (\<exists>k::int. q = of_int (2 * k))"
proof
  assume "q - 2 * of_int (trunc (q / 2)) = 0"
  then have "q = of_int (2 * trunc (q / 2))" by simp
  then show "\<exists>k::int. q = of_int (2 * k)" ..
next
  assume "\<exists>k::int. q = of_int (2 * k)"
  then obtain k :: int where "q = of_int (2 * k)" ..
  then have "q / 2 = of_int k" by simp
  then have "trunc (q / 2) = k" by (simp only: trunc_of_int)
  with \<open>q = of_int (2 * k)\<close> show "q - 2 * of_int (trunc (q / 2)) = 0" by simp
qed

lemma num_rem_two:
  "num_strict_eq (num_rem x (Finite 2)) (Finite 0) \<longleftrightarrow>
     x = NegZero \<or> (\<exists>k::int. x = Finite (of_int (2 * k)))"
proof (cases x)
  case (Finite q)
  show ?thesis
  proof (cases "q = 0")
    case True
    have "(0::rat) = of_int (2 * 0)" by simp
    then have "\<exists>k::int. (0::rat) = of_int (2 * k)" by (rule exI)
    with True Finite show ?thesis
      by (simp add: num_rem_def num_strict_eq_def is_inf_def is_zero_def)
  next
    case False
    with Finite show ?thesis
      using rem_two_zero_iff [of q]
      by (simp add: num_rem_def num_strict_eq_def is_inf_def is_zero_def signed_zero_def Let_def)
  qed
qed (simp_all add: num_rem_def num_strict_eq_def is_inf_def is_zero_def)

text \<open>
  Claim C5. \<^verbatim>\<open>isEven\<close> returns true exactly when the value is an even integer (a zero of
  either sign included): so for zero, for every even value positive or negative such as \<open>-4\<close>,
  and for no odd value.
\<close>

theorem isEven_iff_even_integer:
  "fst (Calculator_isEven c) =
     Normal (value' c = NegZero \<or> (\<exists>k::int. value' c = Finite (of_int (2 * k))))
   \<and> fst (Calculator_isEven \<lparr>value' = Finite 0\<rparr>) = Normal True
   \<and> fst (Calculator_isEven \<lparr>value' = Finite (of_int (2 * k))\<rparr>) = Normal True
   \<and> fst (Calculator_isEven \<lparr>value' = Finite (- 4)\<rparr>) = Normal True
   \<and> fst (Calculator_isEven \<lparr>value' = Finite (of_int (2 * k + 1))\<rparr>) = Normal False"
proof -
  have gen: "fst (Calculator_isEven c) =
      Normal (value' c = NegZero \<or> (\<exists>k::int. value' c = Finite (of_int (2 * k))))" for c
    by (simp add: Calculator_isEven_def num_rem_two)
  have zero: "\<exists>j::int. (0::rat) = of_int (2 * j)"
    by (rule exI [of _ 0]) simp
  have four: "\<exists>j::int. (- 4::rat) = of_int (2 * j)"
    by (rule exI [of _ "- 2"]) simp
  have odd: "\<not> (\<exists>j::int. (of_int (2 * k + 1) :: rat) = of_int (2 * j))"
  proof
    assume "\<exists>j::int. (of_int (2 * k + 1) :: rat) = of_int (2 * j)"
    then obtain j :: int where "(of_int (2 * k + 1) :: rat) = of_int (2 * j)" ..
    then have "2 * k + 1 = 2 * j" by (simp only: of_int_eq_iff)
    then show False by presburger
  qed
  have even: "\<exists>j::int. (of_int (2 * k) :: rat) = of_int (2 * j)"
    by (rule exI [of _ k]) simp
  show ?thesis
    using zero four odd even by (simp add: gen)
qed


text \<open>
  Claim C6. \<^verbatim>\<open>isPositive\<close> returns true exactly when the value is greater than zero: the
  positive infinity or a finite positive value. It returns false for the zeros and for every
  negative value.
\<close>

theorem isPositive_iff_greater_zero:
  "fst (Calculator_isPositive c) =
     Normal (value' c = PosInfinity \<or> (\<exists>q. value' c = Finite q \<and> 0 < q))
   \<and> fst (Calculator_isPositive \<lparr>value' = Finite 0\<rparr>) = Normal False
   \<and> fst (Calculator_isPositive \<lparr>value' = NegZero\<rparr>) = Normal False
   \<and> fst (Calculator_isPositive \<lparr>value' = NegInfinity\<rparr>) = Normal False
   \<and> (q < 0 \<longrightarrow> fst (Calculator_isPositive \<lparr>value' = Finite q\<rparr>) = Normal False)
   \<and> (0 < q \<longrightarrow> fst (Calculator_isPositive \<lparr>value' = Finite q\<rparr>) = Normal True)"
proof -
  have "fst (Calculator_isPositive c) =
      Normal (value' c = PosInfinity \<or> (\<exists>q. value' c = Finite q \<and> 0 < q))" for c
    by (cases "value' c") (auto simp: Calculator_isPositive_def num_gt_def num_lt_def)
  then show ?thesis by simp
qed

theorem isPositive_iff_greater_zero_witness:
  "fst (Calculator_isPositive \<lparr>value' = Finite (- 3)\<rparr>) = Normal False
   \<and> fst (Calculator_isPositive \<lparr>value' = Finite (1 / 2)\<rparr>) = Normal True"
  using isPositive_iff_greater_zero [of "\<lparr>value' = Finite 0\<rparr>" "- 3"]
    isPositive_iff_greater_zero [of "\<lparr>value' = Finite 0\<rparr>" "1 / 2"]
  by simp

text \<open>
  Claim C8. A calculator built with the default value \<open>0\<close>, after \<^verbatim>\<open>add(10)\<close>, \<^verbatim>\<open>multiply(2)\<close>,
  \<^verbatim>\<open>subtract(5)\<close> and \<^verbatim>\<open>divide(3)\<close> in a chain, holds \<open>5\<close>: every intermediate result is a small
  integer, which rounding leaves alone. So the value is within \<open>0.01\<close> of \<open>5\<close>.
\<close>

theorem end_to_end_is_five:
  "new_Calculator None = Normal \<lparr>value' = Finite 0\<rparr>
   \<and> end_to_end = Normal (Finite 5)
   \<and> (\<exists>v. end_to_end = Normal (Finite v) \<and> \<bar>v - 5\<bar> < 1 / 100)"
proof -
  have "end_to_end = Normal (Finite 5)"
    using to_double_of_int [of 10] to_double_of_int [of 20] to_double_of_int [of 15]
      to_double_of_int [of 5]
    by (simp add: end_to_end_def new_Calculator_def chain_def Calculator_defs num_add_def
        num_mul_def num_sub_def num_div_def num_neg_def num_strict_eq_def is_inf_def is_zero_def)
  then have five: "end_to_end = Normal (Finite 5) \<and> \<bar>(5::rat) - 5\<bar> < 1 / 100"
    by simp
  then have "\<exists>v. end_to_end = Normal (Finite v) \<and> \<bar>v - 5\<bar> < 1 / 100"
    by (rule exI)
  with five show ?thesis
    by (simp add: new_Calculator_def)
qed

lemma observe_id: "observe ob c = c"
  by (cases ob) (simp_all add: Calculator_defs)

text \<open>
  Claim C9. \<^verbatim>\<open>getValue\<close>, \<^verbatim>\<open>isEven\<close> and \<^verbatim>\<open>isPositive\<close> leave the receiver as it was: after
  any sequence of calls of them \<^verbatim>\<open>getValue\<close> returns what it returned before.
\<close>

theorem observers_leave_value:
  "observe_all obs c = c
   \<and> fst (Calculator_getValue (observe_all obs c)) = fst (Calculator_getValue c)
   \<and> snd (Calculator_getValue c) = c
   \<and> snd (Calculator_isEven c) = c
   \<and> snd (Calculator_isPositive c) = c"
proof -
  have "observe_all obs c = c"
    by (induction obs arbitrary: c) (simp_all add: observe_id)
  then show ?thesis
    by (simp add: Calculator_defs)
qed

section \<open>Properties of the helper functions\<close>

subsection \<open>add and subtract\<close>

lemma num_add_commute: "num_add a b = num_add b a"
  by (auto simp: num_add_def add.commute)

lemma num_neg_involution: "num_neg (num_neg x) = x"
  by (cases x) (auto simp: num_neg_def)

lemma to_double_minus: "q \<noteq> 0 \<Longrightarrow> to_double (- q) = num_neg (to_double q)"
  by (cases "0 < q") (auto simp: to_double_def num_neg_def split: option.splits)

lemma to_double_not_NaN: "to_double q \<noteq> NaN"
  by (auto simp: to_double_def split: option.splits)

lemma num_neg_NaN_iff: "num_neg x = NaN \<longleftrightarrow> x = NaN"
  by (cases x) (auto simp: num_neg_def)

lemma rat_of_num_neg: "rat_of (num_neg x) = - rat_of x"
  by (cases x) (auto simp: num_neg_def)

lemma is_inf_num_neg: "is_inf (num_neg x) = is_inf x"
  by (cases x) (auto simp: num_neg_def is_inf_def)

lemma num_neg_NegZero_iff: "num_neg x = NegZero \<longleftrightarrow> x = Finite 0"
  by (cases x) (auto simp: num_neg_def)

lemma num_neg_num_add:
  "num_strict_eq (num_neg (num_add a b)) (num_add (num_neg a) (num_neg b))
     \<or> (num_neg (num_add a b) = NaN \<and> num_add (num_neg a) (num_neg b) = NaN)"
proof (cases "a = NaN \<or> b = NaN \<or> is_inf a \<or> is_inf b")
  case True
  then show ?thesis
    by (cases a; cases b) (auto simp: num_add_def num_neg_def num_strict_eq_def is_inf_def)
next
  case False
  then have fin: "a \<noteq> NaN" "b \<noteq> NaN" "\<not> is_inf a" "\<not> is_inf b" by auto
  show ?thesis
  proof (cases "rat_of a + rat_of b = 0")
    case True
    with fin show ?thesis
      by (cases a; cases b) (auto simp: num_add_def num_neg_def num_strict_eq_def is_inf_def)
  next
    case False
    then have ne: "- rat_of a - rat_of b \<noteq> 0" by simp
    have l: "num_add a b = to_double (rat_of a + rat_of b)"
      using fin False by (auto simp: num_add_def)
    have r: "num_add (num_neg a) (num_neg b) = to_double (- (rat_of a + rat_of b))"
      using fin False ne
      by (auto simp: num_add_def num_neg_NaN_iff num_neg_NegZero_iff is_inf_num_neg rat_of_num_neg)
    have "num_neg (num_add a b) = num_add (num_neg a) (num_neg b)"
      unfolding l r using to_double_minus [OF False] by simp
    moreover have "num_add a b \<noteq> NaN \<and> \<not> (is_inf (num_add a b) \<and> False)"
      by (simp add: l to_double_not_NaN)
    ultimately show ?thesis
      by (cases "num_add a b") (auto simp: num_strict_eq_def num_neg_def is_inf_def)
  qed
qed


lemma num_strict_eq_refl: "num_strict_eq x x \<longleftrightarrow> x \<noteq> NaN"
  by (simp add: num_strict_eq_def)

lemma num_strict_eq_sym: "num_strict_eq x y \<longleftrightarrow> num_strict_eq y x"
  by (auto simp: num_strict_eq_def)

lemma num_strict_eq_not_NaN: "num_strict_eq x y \<Longrightarrow> x \<noteq> NaN \<and> y \<noteq> NaN"
  by (auto simp: num_strict_eq_def)

lemma num_sub_antisymmetric:
  "num_strict_eq (num_sub a b) (num_neg (num_sub b a))
     \<or> (num_sub a b = NaN \<and> num_neg (num_sub b a) = NaN)"
proof -
  have "num_add (num_neg b) (num_neg (num_neg a)) = num_sub a b"
    by (simp add: num_sub_def num_neg_involution num_add_commute)
  with num_neg_num_add [of b "num_neg a"] show ?thesis
    by (auto simp: num_sub_def num_strict_eq_sym)
qed

lemma num_add_finite_not_NaN:
  "a \<noteq> NaN \<Longrightarrow> b \<noteq> NaN \<Longrightarrow> \<not> is_inf a \<Longrightarrow> \<not> is_inf b \<Longrightarrow> num_add a b \<noteq> NaN"
  by (auto simp: num_add_def to_double_not_NaN Let_def)

text \<open>
  Claim C7, as amended. \<^verbatim>\<open>add(a, b)\<close> and \<^verbatim>\<open>add(b, a)\<close> are the same number for all \<open>a\<close> and
  \<open>b\<close>. Under the comparison \<^verbatim>\<open>==\<close> of the language \<^verbatim>\<open>add(a, b) == add(b, a)\<close> and
  \<^verbatim>\<open>subtract(a, b) == -subtract(b, a)\<close> hold exactly when the result is not a NaN, which is so
  whenever both operands are finite; otherwise both sides are NaN, and a NaN equals nothing.
\<close>

theorem add_commutes_subtract_antisymmetric:
  "add a b = add b a
   \<and> (num_strict_eq (add a b) (add b a) \<longleftrightarrow> add a b \<noteq> NaN)
   \<and> (num_strict_eq (subtract a b) (num_neg (subtract b a)) \<longleftrightarrow> subtract a b \<noteq> NaN)
   \<and> (num_neg (subtract b a) = NaN \<longleftrightarrow> subtract a b = NaN)
   \<and> (a \<noteq> NaN \<and> b \<noteq> NaN \<and> \<not> is_inf a \<and> \<not> is_inf b \<longrightarrow>
        add a b \<noteq> NaN \<and> subtract a b \<noteq> NaN)"
proof -
  have comm: "add a b = add b a"
    by (simp add: add_def num_add_commute)
  have eq: "num_strict_eq (add a b) (add b a) \<longleftrightarrow> add a b \<noteq> NaN"
    using comm by (simp add: num_strict_eq_refl)
  have sub: "num_strict_eq (subtract a b) (num_neg (subtract b a)) \<longleftrightarrow> subtract a b \<noteq> NaN"
    using num_sub_antisymmetric [of a b] num_strict_eq_not_NaN
    by (auto simp: subtract_def)
  have nan: "num_neg (subtract b a) = NaN \<longleftrightarrow> subtract a b = NaN"
    using num_sub_antisymmetric [of a b] num_strict_eq_not_NaN
    by (auto simp: subtract_def)
  have fin: "add a b \<noteq> NaN \<and> subtract a b \<noteq> NaN"
    if "a \<noteq> NaN \<and> b \<noteq> NaN \<and> \<not> is_inf a \<and> \<not> is_inf b"
    using that
    by (simp add: add_def subtract_def num_sub_def num_add_finite_not_NaN num_neg_NaN_iff
        is_inf_num_neg)
  from comm eq sub nan fin show ?thesis by blast
qed

theorem add_commutes_subtract_antisymmetric_witness:
  "num_strict_eq (add (Finite 1) (Finite 2)) (add (Finite 2) (Finite 1))
   \<and> num_strict_eq (subtract (Finite 1) (Finite 2)) (num_neg (subtract (Finite 2) (Finite 1)))"
proof -
  have "Finite 1 \<noteq> NaN \<and> Finite 2 \<noteq> NaN \<and> \<not> is_inf (Finite 1) \<and> \<not> is_inf (Finite 2)"
    by (simp add: is_inf_def)
  with add_commutes_subtract_antisymmetric [of "Finite 1" "Finite 2"] show ?thesis
    by blast
qed

text \<open>
  The claim as stated, for all numbers, fails where a result is a NaN: with a NaN operand,
  and for the sum of the two infinities.
\<close>

theorem add_commutes_counterexample:
  "\<not> num_strict_eq (add NaN (Finite 1)) (add (Finite 1) NaN)
   \<and> \<not> num_strict_eq (subtract NaN (Finite 1)) (num_neg (subtract (Finite 1) NaN))
   \<and> \<not> num_strict_eq (add PosInfinity NegInfinity) (add NegInfinity PosInfinity)"
  by (simp add: add_def subtract_def num_sub_def num_add_def num_neg_def num_strict_eq_def
      is_inf_def)

text \<open>
  The two sides of the second equation can differ in the sign of a zero, which \<^verbatim>\<open>==\<close> does
  not see.
\<close>

lemma subtract_equal_operands:
  "subtract (Finite 1) (Finite 1) = Finite 0
   \<and> num_neg (subtract (Finite 1) (Finite 1)) = NegZero"
  by (simp add: subtract_def num_sub_def num_add_def num_neg_def is_inf_def)

subsection \<open>The resolution order of getErrorMessage\<close>

lemmas js_value_defs =
  getErrorMessage_def js_def number_to_string_def int_to_string_def new_Error_def
  new_TypeError_def object_literal_def Object_create_null_def

lemma getErrorMessage_cases:
  "getErrorMessage fmt error =
     (case error of
        String s \<Rightarrow> Inr (String s)
      | Object kind inst has message conv \<Rightarrow>
          (case inst of
             Inl e \<Rightarrow> Inl e
           | Inr True \<Rightarrow> message
           | Inr False \<Rightarrow>
               if kind \<noteq> Ordinary then Inr (String (js ''Unknown error''))
               else
                 (case has of
                    Inl e \<Rightarrow> Inl e
                  | Inr False \<Rightarrow> Inr (String (js ''Unknown error''))
                  | Inr True \<Rightarrow>
                      (case message of
                         Inl e \<Rightarrow> Inl e
                       | Inr m \<Rightarrow>
                           (case js_String fmt m of
                              Inl e \<Rightarrow> Inl e
                            | Inr s \<Rightarrow> Inr (String s)))))
      | _ \<Rightarrow> Inr (String (js ''Unknown error'')))"
  by (cases error)
    (auto simp: getErrorMessage_def split: sum.splits bool.splits object_kind.splits)

lemma js_String_throws_iff:
  "isl (js_String fmt v) \<longleftrightarrow>
     (\<exists>kind inst has message e. v = Object kind inst has message (Inl e))"
  by (cases v) (auto simp: isl_def)

text \<open>
  Claim C2, as amended. \<^verbatim>\<open>getErrorMessage\<close> resolves its argument in this order: for an
  instance of \<^verbatim>\<open>Error\<close> the value of its \<^verbatim>\<open>message\<close> property, as it is; a string itself; for an
  object (\<^verbatim>\<open>typeof\<close> gives \<^verbatim>\<open>"object"\<close>, and not \<^verbatim>\<open>null\<close>) with a \<^verbatim>\<open>message\<close> property, that property
  converted to a string, so that \<^verbatim>\<open>{message: 404}\<close> gives \<^verbatim>\<open>"404"\<close>; and \<^verbatim>\<open>"Unknown error"\<close> for
  everything else. The result is a string, except in the first case when \<^verbatim>\<open>message\<close> is not
  one. The call throws exactly when a step that this order takes on an object throws: the test
  \<^verbatim>\<open>instanceof\<close>, the read of \<^verbatim>\<open>message\<close> in the first case, and in the third case the test \<^verbatim>\<open>in\<close>,
  the read of \<^verbatim>\<open>message\<close> or its conversion, which only the conversion of an object can do.
\<close>

theorem getErrorMessage_resolution:
  "getErrorMessage fmt error =
     (case error of
        String s \<Rightarrow> Inr (String s)
      | Object kind inst has message conv \<Rightarrow>
          (case inst of
             Inl e \<Rightarrow> Inl e
           | Inr True \<Rightarrow> message
           | Inr False \<Rightarrow>
               if kind \<noteq> Ordinary then Inr (String (js ''Unknown error''))
               else
                 (case has of
                    Inl e \<Rightarrow> Inl e
                  | Inr False \<Rightarrow> Inr (String (js ''Unknown error''))
                  | Inr True \<Rightarrow>
                      (case message of
                         Inl e \<Rightarrow> Inl e
                       | Inr m \<Rightarrow>
                           (case js_String fmt m of
                              Inl e \<Rightarrow> Inl e
                            | Inr s \<Rightarrow> Inr (String s)))))
      | _ \<Rightarrow> Inr (String (js ''Unknown error'')))
   \<and> (isl (getErrorMessage fmt error) \<longleftrightarrow>
        (\<exists>kind inst has message conv. error = Object kind inst has message conv
           \<and> (isl inst
                \<or> inst = Inr True \<and> isl message
                \<or> inst = Inr False \<and> kind = Ordinary
                  \<and> (isl has
                       \<or> has = Inr True
                         \<and> (isl message \<or> (\<exists>m. message = Inr m \<and> isl (js_String fmt m)))))))
   \<and> (isl (js_String fmt v) \<longleftrightarrow>
        (\<exists>kind inst has message e. v = Object kind inst has message (Inl e)))
   \<and> (getErrorMessage fmt error = Inr v \<longrightarrow>
        (\<exists>s. v = String s)
        \<or> (\<exists>kind has conv. error = Object kind (Inr True) has (Inr v) conv))
   \<and> getErrorMessage fmt (new_Error X) = Inr (String X)
   \<and> getErrorMessage fmt (String Y) = Inr (String Y)
   \<and> getErrorMessage fmt (object_literal (Some (Number (Finite 404)))) = Inr (String (js ''404''))
   \<and> getErrorMessage fmt Null = Inr (String (js ''Unknown error''))
   \<and> getErrorMessage fmt Undefined = Inr (String (js ''Unknown error''))
   \<and> getErrorMessage fmt (Number (Finite 123)) = Inr (String (js ''Unknown error''))
   \<and> getErrorMessage fmt (object_literal None) = Inr (String (js ''Unknown error''))"
proof -
  note res = getErrorMessage_cases
  have throws: "isl (getErrorMessage fmt error) \<longleftrightarrow>
        (\<exists>kind inst has message conv. error = Object kind inst has message conv
           \<and> (isl inst
                \<or> inst = Inr True \<and> isl message
                \<or> inst = Inr False \<and> kind = Ordinary
                  \<and> (isl has
                       \<or> has = Inr True
                         \<and> (isl message \<or> (\<exists>m. message = Inr m \<and> isl (js_String fmt m))))))"
    unfolding res by (cases error) (auto split: sum.splits bool.splits)
  have string: "(\<exists>s. v = String s)
        \<or> (\<exists>kind has conv. error = Object kind (Inr True) has (Inr v) conv)"
    if "getErrorMessage fmt error = Inr v"
    using that unfolding res by (cases error) (auto split: sum.splits bool.splits if_splits)
  have ex404: "getErrorMessage fmt (object_literal (Some (Number (Finite 404))))
      = Inr (String (js ''404''))"
    by (simp add: js_value_defs)
  have rest: "getErrorMessage fmt (new_Error X) = Inr (String X)
      \<and> getErrorMessage fmt (String Y) = Inr (String Y)
      \<and> getErrorMessage fmt Null = Inr (String (js ''Unknown error''))
      \<and> getErrorMessage fmt Undefined = Inr (String (js ''Unknown error''))
      \<and> getErrorMessage fmt (Number (Finite 123)) = Inr (String (js ''Unknown error''))
      \<and> getErrorMessage fmt (object_literal None) = Inr (String (js ''Unknown error''))"
    by (simp add: res new_Error_def object_literal_def)
  from res [of fmt error] throws js_String_throws_iff [of fmt v] string ex404 rest
  show ?thesis
    by blast
qed

theorem getErrorMessage_resolution_witness:
  "getErrorMessage (int_to_string \<circ> floor) (object_literal (Some (Boolean True)))
     = Inr (String (js ''true''))
   \<and> getErrorMessage (int_to_string \<circ> floor) (new_Error (js ''Failed''))
     = Inr (String (js ''Failed''))"
proof -
  have a: "getErrorMessage (int_to_string \<circ> floor) (object_literal (Some (Boolean True)))
      = Inr (String (js ''true''))"
    by (simp add: js_value_defs)
  have b: "getErrorMessage (int_to_string \<circ> floor) (new_Error (js ''Failed''))
      = Inr (String (js ''Failed''))"
    by (simp add: js_value_defs)
  from getErrorMessage_resolution
    [where fmt = "int_to_string \<circ> floor" and error = "object_literal (Some (Boolean True))"
      and v = "String (js ''true'')"] a
  have "(\<exists>s. String (js ''true'') = String s)
      \<or> (\<exists>kind has conv. object_literal (Some (Boolean True))
            = Object kind (Inr True) has (Inr (String (js ''true''))) conv)"
    by blast
  with a b show ?thesis
    by simp
qed

text \<open>
  The claim as stated promises a string for every input, and no exception. On
  \<^verbatim>\<open>{message: Object.create(null)}\<close> the conversion of the property throws a \<^verbatim>\<open>TypeError\<close>, and
  so does \<^verbatim>\<open>getErrorMessage\<close>. On \<^verbatim>\<open>Object.assign(new Error("x"), {message: 404})\<close>, an instance
  of \<^verbatim>\<open>Error\<close> whose \<^verbatim>\<open>message\<close> is a number, it returns the number.
\<close>

theorem getErrorMessage_throws:
  "(\<forall>fmt. getErrorMessage fmt (object_literal (Some Object_create_null))
      = Inl (new_TypeError (js ''Cannot convert object to primitive value'')))
   \<and> (\<forall>fmt. getErrorMessage fmt
         (Object Ordinary (Inr True) (Inr True) (Inr (Number (Finite 404)))
            (Inr (js ''Error: 404'')))
      = Inr (Number (Finite 404)))"
  by (simp add: js_value_defs)

subsection \<open>capitalize and the case of its first character\<close>

lemma ascii_upper_fixed: "ascii_upper (ascii_upper u) = ascii_upper u"
  unfolding ascii_upper_def by unat_arith

lemma is_ascii_upper: "is_ascii u \<Longrightarrow> is_ascii (ascii_upper u)"
  unfolding ascii_upper_def is_ascii_def by unat_arith

lemma toUpperCase_ascii: "is_ascii u \<Longrightarrow> toUpperCase unicode [u] = [ascii_upper u]"
  by (simp add: toUpperCase_def)

lemma toUpperCase_other: "\<not> is_ascii u \<Longrightarrow> toUpperCase unicode [u] = unicode [u]"
  by (simp add: toUpperCase_def)

lemma capitalize_Cons: "capitalize unicode (u # us) = toUpperCase unicode [u] @ us"
  by (simp add: capitalize_def charAt_def slice_def)

lemma capitalize_Nil: "capitalize unicode [] = []"
  by (simp add: capitalize_def)




subsection \<open>The case table is closed\<close>

lemma build_set: "build n xs = (t, ys) \<Longrightarrow> set_tree t \<union> set ys = set xs"
proof (induction n xs arbitrary: t ys rule: build.induct)
  case (1 n xs)
  show ?case
  proof (cases "n = 0")
    case True
    with "1.prems" show ?thesis
      by (simp add: build.simps [of 0 xs])
  next
    case False
    obtain l ys1 where l: "build (n div 2) xs = (l, ys1)"
      by (cases "build (n div 2) xs")
    from "1.IH"(1) [OF False l] have left: "set_tree l \<union> set ys1 = set xs" .
    show ?thesis
    proof (cases ys1)
      case Nil
      with "1.prems" False l left show ?thesis
        by (simp add: build.simps [of n xs])
    next
      case (Cons y ys')
      obtain r zs where r: "build (n - 1 - n div 2) ys' = (r, zs)"
        by (cases "build (n - 1 - n div 2) ys'")
      from "1.IH"(2) [OF False l [symmetric] Cons r]
      have right: "set_tree r \<union> set zs = set ys'" .
      from "1.prems" False l Cons r have "t = Node l y r" and "ys = zs"
        by (simp_all add: build.simps [of n xs])
      with left right Cons show ?thesis
        by auto
    qed
  qed
qed

lemma ordered_bounds:
  "ordered a t b \<Longrightarrow> (lo, hi, step, offset, tail) \<in> set_tree t \<Longrightarrow> a < lo \<and> lo \<le> hi \<and> hi < b"
proof (induction a t b rule: ordered.induct)
  case (1 a b)
  then show ?case by simp
next
  case (2 a l lo' hi' step' offset' tail' r b)
  from "2.prems" have ord: "a < lo'" "lo' \<le> hi'" "hi' < b" "ordered a l lo'" "ordered hi' r b"
    by simp_all
  from "2.prems"(2) consider "(lo, hi, step, offset, tail) \<in> set_tree l"
    | "(lo, hi, step, offset, tail) = (lo', hi', step', offset', tail')"
    | "(lo, hi, step, offset, tail) \<in> set_tree r"
    by auto
  then show ?case
  proof cases
    case 1
    with "2.IH"(1) ord show ?thesis by fastforce
  next
    case 2
    with ord show ?thesis by simp
  next
    case 3
    with "2.IH"(2) ord show ?thesis by fastforce
  qed
qed

lemma same_parity:
  assumes "step = 2 \<or> lo = hi" and "lo \<le> c" "c \<le> hi" "(c - lo) mod step = 0"
  shows "c mod 2 = lo mod (2::int)"
  using assms(1)
proof
  assume "step = 2"
  with assms(4) show ?thesis by presburger
next
  assume "lo = hi"
  with assms(2,3) have "c = lo" by simp
  then show ?thesis by simp
qed

lemma parity_apart_sound:
  assumes "parity_apart (lo, hi, step) e"
    and "lo \<le> c" "c \<le> hi" "(c - lo) mod step = 0"
  shows "\<not> in_entry c e"
proof
  assume e: "in_entry c e"
  obtain lo' hi' step' offset tail where e_eq: "e = (lo', hi', step', offset, tail)"
    by (cases e)
  from assms(1) have a: "step = 2 \<or> lo = hi" and b: "step' = 2 \<or> lo' = hi'"
    and p: "lo mod 2 \<noteq> lo' mod 2"
    by (simp_all add: parity_apart_def e_eq)
  from e have "lo' \<le> c" "c \<le> hi'" "(c - lo') mod step' = 0"
    by (simp_all add: in_entry_def e_eq)
  from same_parity [OF b this] same_parity [OF a assms(2-4)] show False
    using p by simp
qed

lemma clear_sound:
  assumes "ordered a t b" and "clear (lo, hi, step) t" and "e \<in> set_tree t"
    and "lo \<le> c" "c \<le> hi" "(c - lo) mod step = 0"
  shows "\<not> in_entry c e"
  using assms(1-3)
proof (induction a t b rule: ordered.induct)
  case (1 a b)
  then show ?case by simp
next
  case (2 a l lo' hi' step' offset' tail' r b)
  let ?s = "(lo', hi', step', offset', tail')"
  from "2.prems"(1) have ord: "ordered a l lo'" "ordered hi' r b" "lo' \<le> hi'"
    by simp_all
  obtain elo ehi estep eoff etail where e_eq: "e = (elo, ehi, estep, eoff, etail)"
    by (cases e)
  have below: "\<not> in_entry c e" if "e \<in> set_tree l" "lo' \<le> c"
    using ordered_bounds [OF ord(1), of elo ehi estep eoff etail] that
    by (simp add: e_eq in_entry_def)
  have above: "\<not> in_entry c e" if "e \<in> set_tree r" "c \<le> hi'"
    using ordered_bounds [OF ord(2), of elo ehi estep eoff etail] that
    by (simp add: e_eq in_entry_def)
  from "2.prems"(3) consider "e \<in> set_tree l" | "e = ?s" | "e \<in> set_tree r"
    by auto
  then show ?case
  proof cases
    case 1
    show ?thesis
    proof (cases "hi < lo'")
      case True
      with "2.prems"(2) have "clear (lo, hi, step) l" by simp
      with "2.IH"(1) ord 1 show ?thesis by simp
    next
      case False
      show ?thesis
      proof (cases "hi' < lo")
        case True
        with assms(4) ord(3) have "lo' \<le> c" by simp
        with below 1 show ?thesis by simp
      next
        case False
        with \<open>\<not> hi < lo'\<close> "2.prems"(2) have "clear (lo, hi, step) l" by simp
        with "2.IH"(1) ord 1 show ?thesis by simp
      qed
    qed
  next
    case 2
    show ?thesis
    proof (cases "hi < lo' \<or> hi' < lo")
      case True
      with assms(4,5) 2 show ?thesis by (auto simp: in_entry_def)
    next
      case False
      with "2.prems"(2) have "parity_apart (lo, hi, step) ?s" by simp
      from parity_apart_sound [OF this assms(4-6)] 2 show ?thesis by simp
    qed
  next
    case 3
    show ?thesis
    proof (cases "hi < lo'")
      case True
      with assms(5) ord(3) have "c \<le> hi'" by simp
      with above 3 show ?thesis by simp
    next
      case False
      show ?thesis
      proof (cases "hi' < lo")
        case True
        with \<open>\<not> hi < lo'\<close> "2.prems"(2) have "clear (lo, hi, step) r" by simp
        with "2.IH"(2) ord 3 show ?thesis by simp
      next
        case False
        with \<open>\<not> hi < lo'\<close> "2.prems"(2) have "clear (lo, hi, step) r" by simp
        with "2.IH"(2) ord 3 show ?thesis by simp
      qed
    qed
  qed
qed

lemma upper_entries_closed: "table_closed upper_entries"
  by code_simp

lemma upper_code_point_entry:
  assumes "find (in_entry c) upper_entries = Some (lo, hi, step, offset, tail)"
  shows "(lo, hi, step, offset, tail) \<in> set upper_entries"
    and "in_entry c (lo, hi, step, offset, tail)"
    and "upper_code_point c = (c + offset) # tail"
proof -
  from assms obtain i where "i < length upper_entries"
    and "in_entry c (upper_entries ! i)" and "(lo, hi, step, offset, tail) = upper_entries ! i"
    unfolding find_Some_iff by blast
  then show "(lo, hi, step, offset, tail) \<in> set upper_entries"
    and "in_entry c (lo, hi, step, offset, tail)"
    by simp_all
  from assms show "upper_code_point c = (c + offset) # tail"
    by (simp add: upper_code_point_def)
qed

lemma upper_code_point_none:
  assumes "\<And>e. e \<in> set upper_entries \<Longrightarrow> \<not> in_entry c e"
  shows "upper_code_point c = [c]"
proof -
  from assms have "find (in_entry c) upper_entries = None"
    by (simp add: find_None_iff)
  then show ?thesis
    by (simp add: upper_code_point_def)
qed

lemma ascii_letters_entry: "(0x61, 0x7A, 1, - 32, []) \<in> set upper_entries"
  by (simp add: upper_entries_def)

lemma upper_of_upper:
  assumes c: "0 \<le> c" "c < 0x10000"
    and found: "find (in_entry c) upper_entries = Some (lo, hi, step, offset, tail)"
  shows "0 \<le> c + offset \<and> c + offset < 0x10000
    \<and> \<not> (0x61 \<le> c + offset \<and> c + offset \<le> 0x7A)
    \<and> upper_code_point (c + offset) = [c + offset]"
proof -
  let ?e = "(lo, hi, step, offset, tail)"
  from upper_code_point_entry [OF found]
  have mem: "?e \<in> set upper_entries" and cov: "lo \<le> c" "c \<le> hi" "(c - lo) mod step = 0"
    by (simp_all add: in_entry_def)
  obtain t rest where t: "build (length upper_entries) upper_entries = (t, rest)"
    by (cases "build (length upper_entries) upper_entries")
  with upper_entries_closed have rest: "rest = []" and ord: "ordered (- 1) t 0x110000"
    and all: "list_all (entry_closed t) upper_entries"
    by (simp_all add: table_closed_def)
  from build_set [OF t] rest have set: "set_tree t = set upper_entries"
    by simp
  from all mem have "entry_closed t ?e"
    by (simp add: list_all_iff)
  with c cov have img: "0 \<le> lo + offset" "hi + offset < 0x10000"
    and clr: "clear (lo + offset, hi + offset, step) t"
    by (simp_all add: entry_closed_def)
  have seg: "lo + offset \<le> c + offset" "c + offset \<le> hi + offset"
    "(c + offset - (lo + offset)) mod step = 0"
    using cov by simp_all
  have none: "\<not> in_entry (c + offset) e" if "e \<in> set upper_entries" for e
    using clear_sound [OF ord clr _ seg] that set by simp
  from none [OF ascii_letters_entry] have "\<not> (0x61 \<le> c + offset \<and> c + offset \<le> 0x7A)"
    by (simp add: in_entry_def)
  moreover from none have "upper_code_point (c + offset) = [c + offset]"
    by (rule upper_code_point_none)
  ultimately show ?thesis
    using img seg by simp
qed

lemma unicode_upper_unit: "unicode_upper [u] = code_units (upper_code_point (uint u))"
  by (simp add: unicode_upper_def)

lemma code_units_bmp:
  "0 \<le> c \<Longrightarrow> c < 0x10000 \<Longrightarrow> code_units (c # cs) = word_of_int c # code_units cs"
  by simp

lemma uint_bmp: "0 \<le> c \<Longrightarrow> c < 0x10000 \<Longrightarrow> uint (word_of_int c :: code_unit) = c"
  by (simp add: uint_word_of_int)

lemma unicode_upper_closed: "upper_closed unicode_upper"
  unfolding upper_closed_def
proof (intro allI impI)
  fix u :: code_unit
  assume non_ascii: "\<not> is_ascii u"
  let ?c = "uint u"
  have c: "0 \<le> ?c" "?c < 0x10000"
    using uint_lt2p [of u] by simp_all
  show "\<exists>v vs. unicode_upper [u] = v # vs \<and> toUpperCase unicode_upper [v] = [v]"
  proof (cases "find (in_entry ?c) upper_entries")
    case None
    with c have "unicode_upper [u] = [u]"
      by (simp add: unicode_upper_unit upper_code_point_def)
    with non_ascii show ?thesis
      by (simp add: toUpperCase_other)
  next
    case (Some e)
    obtain lo hi step offset tail where e: "e = (lo, hi, step, offset, tail)"
      by (cases e)
    from Some e have found: "find (in_entry ?c) upper_entries = Some (lo, hi, step, offset, tail)"
      by simp
    define d where "d = ?c + offset"
    define v :: code_unit where "v = word_of_int d"
    from upper_of_upper [OF c found]
    have d: "0 \<le> d" "d < 0x10000" and letter: "\<not> (0x61 \<le> d \<and> d \<le> 0x7A)"
      and fixed: "upper_code_point d = [d]"
      by (simp_all add: d_def)
    have uv: "uint v = d"
      unfolding v_def using d by (rule uint_bmp)
    have "upper_code_point ?c = d # tail"
      using upper_code_point_entry(3) [OF found] by (simp add: d_def)
    then have "unicode_upper [u] = code_units (d # tail)"
      by (simp only: unicode_upper_unit)
    also have "\<dots> = v # code_units tail"
      unfolding v_def using d by (rule code_units_bmp)
    finally have first: "unicode_upper [u] = v # code_units tail" .
    have "toUpperCase unicode_upper [v] = [v]"
    proof (cases "is_ascii v")
      case True
      from letter have "ascii_upper v = v"
        unfolding ascii_upper_def word_le_def uv by simp
      with True show ?thesis
        by (simp add: toUpperCase_ascii)
    next
      case False
      have "unicode_upper [v] = code_units [d]"
        by (simp only: unicode_upper_unit uv fixed)
      also have "\<dots> = [v]"
        unfolding v_def using code_units_bmp [OF d, of "[]"] by simp
      finally show ?thesis
        using False by (simp add: toUpperCase_other)
    qed
    with first show ?thesis
      by blast
  qed
qed

subsection \<open>The case table on ASCII\<close>

text \<open>
  On a string of ASCII characters the table gives what \<^verbatim>\<open>toUpperCase\<close> is defined to give there,
  so that with this table \<^verbatim>\<open>toUpperCase\<close> is the conversion by the table on every string.
\<close>

lemma other_entries_beyond_ascii:
  "list_all (\<lambda>e. case e of (lo, hi, step, offset, tail) \<Rightarrow> 0x80 \<le> lo) (tl upper_entries)"
  by code_simp

lemma upper_entries_Cons: "upper_entries = (0x61, 0x7A, 1, - 32, []) # tl upper_entries"
  by (simp add: upper_entries_def)

lemma upper_code_point_ascii:
  assumes "0 \<le> c" "c < 0x80"
  shows "upper_code_point c = [if 0x61 \<le> c \<and> c \<le> 0x7A then c - 0x20 else c]"
proof -
  have rest: "find (in_entry c) (tl upper_entries) = None"
    unfolding find_None_iff using other_entries_beyond_ascii assms
    by (auto simp: list_all_iff in_entry_def)
  have "find (in_entry c) upper_entries =
      (if in_entry c (0x61, 0x7A, 1, - 32, []) then Some (0x61, 0x7A, 1, - 32, []) else None)"
    by (subst upper_entries_Cons) (simp add: rest)
  then show ?thesis
    by (simp add: upper_code_point_def in_entry_def)
qed

lemma code_points_ascii: "list_all is_ascii s \<Longrightarrow> code_points s = map uint s"
proof (induction s rule: code_points.induct)
  case (1 h l us)
  from "1.prems" have "\<not> is_high_surrogate h"
    unfolding is_high_surrogate_def is_ascii_def by simp unat_arith
  with 1 show ?case by simp
qed simp_all

lemma code_units_map:
  "list_all (\<lambda>c. 0 \<le> c \<and> c < 0x10000) cs \<Longrightarrow> code_units cs = map word_of_int cs"
  by (induction cs) simp_all

lemma ascii_upper_uint:
  assumes "is_ascii u"
  shows "word_of_int (if 0x61 \<le> uint u \<and> uint u \<le> 0x7A then uint u - 0x20 else uint u)
    = ascii_upper u"
  unfolding ascii_upper_def word_le_def by simp

lemma unicode_upper_ascii:
  assumes "list_all is_ascii s"
  shows "unicode_upper s = map ascii_upper s"
  using assms
proof (induction s)
  case Nil
  then show ?case by (simp add: unicode_upper_def)
next
  case (Cons u us)
  then have u: "is_ascii u" and us: "list_all is_ascii us" by simp_all
  from u have c: "0 \<le> uint u" "uint u < 0x80"
    unfolding is_ascii_def word_less_def by simp_all
  have "unicode_upper (u # us) = code_units (upper_code_point (uint u)) @ unicode_upper us"
    using Cons.prems
    by (simp add: unicode_upper_def code_points_ascii upper_code_point_ascii [OF c])
  with Cons.IH [OF us] c show ?case
    using ascii_upper_uint [OF u] by (simp add: upper_code_point_ascii [OF c])
qed

lemma toUpperCase_unicode_upper: "toUpperCase unicode_upper s = unicode_upper s"
  by (simp add: toUpperCase_def unicode_upper_ascii)

subsection \<open>capitalize is idempotent\<close>

lemma capitalize_idempotent_closed:
  assumes "upper_closed unicode"
  shows "capitalize unicode (capitalize unicode s) = capitalize unicode s"
proof (cases s)
  case Nil
  then show ?thesis by (simp add: capitalize_Nil)
next
  case (Cons u us)
  show ?thesis
  proof (cases "is_ascii u")
    case True
    then have "toUpperCase unicode [ascii_upper u] = [ascii_upper u]"
      by (simp add: toUpperCase_ascii is_ascii_upper ascii_upper_fixed)
    with True Cons show ?thesis
      by (simp add: capitalize_Cons toUpperCase_ascii)
  next
    case False
    with assms obtain v vs where "unicode [u] = v # vs" and "toUpperCase unicode [v] = [v]"
      unfolding upper_closed_def by blast
    with False Cons show ?thesis
      by (simp add: capitalize_Cons toUpperCase_other)
  qed
qed

text \<open>
  Claim C10. \<^verbatim>\<open>capitalize\<close> is idempotent: for every string, with the case table of the
  Unicode Character Database, and with any case conversion that is closed, as that one is.
\<close>

theorem capitalize_idempotent:
  "capitalize unicode_upper (capitalize unicode_upper s) = capitalize unicode_upper s
   \<and> (upper_closed unicode \<longrightarrow>
        capitalize unicode (capitalize unicode s) = capitalize unicode s)"
  using capitalize_idempotent_closed [OF unicode_upper_closed]
  by (simp add: capitalize_idempotent_closed)

text \<open>
  Two strings whose first letter is beyond ASCII: the one with the code units \<open>E9 74 E9\<close>,
  whose capital has \<open>C9\<close> in front, and the one with \<open>DF 61\<close>, where the upper case of the
  first letter is two letters, \<open>53 53\<close>.
\<close>

theorem capitalize_idempotent_witness:
  "upper_closed unicode_upper
   \<and> capitalize unicode_upper [0xE9, 0x74, 0xE9] = [0xC9, 0x74, 0xE9]
   \<and> capitalize unicode_upper (capitalize unicode_upper [0xE9, 0x74, 0xE9])
       = capitalize unicode_upper [0xE9, 0x74, 0xE9]
   \<and> capitalize unicode_upper [0xDF, 0x61] = [0x53, 0x53, 0x61]
   \<and> capitalize unicode_upper (capitalize unicode_upper [0xDF, 0x61])
       = capitalize unicode_upper [0xDF, 0x61]"
proof -
  have "capitalize unicode_upper [0xE9, 0x74, 0xE9] = [0xC9, 0x74, 0xE9]"
    by code_simp
  moreover have "capitalize unicode_upper [0xDF, 0x61] = [0x53, 0x53, 0x61]"
    by code_simp
  ultimately show ?thesis
    using unicode_upper_closed
      capitalize_idempotent [of "[0xE9, 0x74, 0xE9]" unicode_upper]
      capitalize_idempotent [of "[0xDF, 0x61]" unicode_upper]
    by simp
qed

subsection \<open>The strings that isValidEmail accepts\<close>

lemma in_run_Bol: "(b', a') \<in> set (run Bol (b, a)) \<longleftrightarrow> b = [] \<and> b' = b \<and> a' = a"
  by auto

lemma in_run_Eol: "(b', a') \<in> set (run Eol (b, a)) \<longleftrightarrow> a = [] \<and> b' = b \<and> a' = a"
  by auto

lemma in_run_Class:
  "(b', a') \<in> set (run (Class p) (b, a)) \<longleftrightarrow> (\<exists>u. p u \<and> a = u # a' \<and> b' = b @ [u])"
  by (cases a) auto

lemma in_run_Char:
  "(b', a') \<in> set (run (Char c) (b, a)) \<longleftrightarrow> a = of_char c # a' \<and> b' = b @ [of_char c]"
  by (auto simp: Char_def in_run_Class)

lemma in_run_Seq:
  "st'' \<in> set (run (Seq r1 r2) st) \<longleftrightarrow>
     (\<exists>b' a'. (b', a') \<in> set (run r1 st) \<and> st'' \<in> set (run r2 (b', a')))"
  by auto

lemma in_repeat_Class:
  "(b', a') \<in> set (repeat (run (Class p)) n (b, a)) \<longleftrightarrow>
     (\<exists>x. x \<noteq> [] \<and> length x \<le> n \<and> list_all p x \<and> a = x @ a' \<and> b' = b @ x)"
proof (induction n arbitrary: b a)
  case 0
  then show ?case by simp
next
  case (Suc n)
  show ?case
  proof
    assume "(b', a') \<in> set (repeat (run (Class p)) (Suc n) (b, a))"
    then obtain st where st: "st \<in> set (run (Class p) (b, a))"
      and mem: "(b', a') \<in> set (repeat (run (Class p)) n st) \<or> (b', a') = st"
      by auto
    obtain b1 a1 where st_eq: "st = (b1, a1)" by (cases st)
    from st obtain u where u: "p u" "a = u # a1" "b1 = b @ [u]"
      unfolding st_eq in_run_Class by blast
    from mem show "\<exists>x. x \<noteq> [] \<and> length x \<le> Suc n \<and> list_all p x \<and> a = x @ a' \<and> b' = b @ x"
    proof
      assume "(b', a') \<in> set (repeat (run (Class p)) n st)"
      then obtain x where "x \<noteq> []" "length x \<le> n" "list_all p x" "a1 = x @ a'" "b' = b1 @ x"
        unfolding st_eq Suc.IH by blast
      with u have "u # x \<noteq> [] \<and> length (u # x) \<le> Suc n \<and> list_all p (u # x)
          \<and> a = (u # x) @ a' \<and> b' = b @ (u # x)"
        by simp
      then show ?thesis by blast
    next
      assume "(b', a') = st"
      with u st_eq have "[u] \<noteq> [] \<and> length [u] \<le> Suc n \<and> list_all p [u]
          \<and> a = [u] @ a' \<and> b' = b @ [u]"
        by simp
      then show ?thesis by blast
    qed
  next
    assume "\<exists>x. x \<noteq> [] \<and> length x \<le> Suc n \<and> list_all p x \<and> a = x @ a' \<and> b' = b @ x"
    then obtain x where x: "x \<noteq> []" "length x \<le> Suc n" "list_all p x" "a = x @ a'" "b' = b @ x"
      by blast
    then obtain u us where x_eq: "x = u # us" by (cases x) auto
    with x have first: "(b @ [u], us @ a') \<in> set (run (Class p) (b, a))"
      by (simp add: in_run_Class)
    have "(b', a') \<in> set (repeat (run (Class p)) n (b @ [u], us @ a')) \<or> (b', a') = (b @ [u], us @ a')"
    proof (cases "us = []")
      case True
      with x x_eq show ?thesis by simp
    next
      case False
      with x x_eq have "us \<noteq> [] \<and> length us \<le> n \<and> list_all p us \<and> us @ a' = us @ a'
          \<and> b' = (b @ [u]) @ us"
        by simp
      then have "(b', a') \<in> set (repeat (run (Class p)) n (b @ [u], us @ a'))"
        unfolding Suc.IH by blast
      then show ?thesis ..
    qed
    with first show "(b', a') \<in> set (repeat (run (Class p)) (Suc n) (b, a))"
      by (auto simp del: run.simps)
  qed
qed

lemma in_run_Plus_Class:
  "(b', a') \<in> set (run (Plus (Class p)) (b, a)) \<longleftrightarrow>
     (\<exists>x. x \<noteq> [] \<and> list_all p x \<and> a = x @ a' \<and> b' = b @ x)"
proof -
  have "run (Plus (Class p)) (b, a) = repeat (run (Class p)) (Suc (length a)) (b, a)"
    by (simp only: run.simps snd_conv)
  then have "(b', a') \<in> set (run (Plus (Class p)) (b, a)) \<longleftrightarrow>
      (\<exists>x. x \<noteq> [] \<and> length x \<le> Suc (length a) \<and> list_all p x \<and> a = x @ a' \<and> b' = b @ x)"
    by (simp only: in_repeat_Class)
  also have "\<dots> \<longleftrightarrow> (\<exists>x. x \<noteq> [] \<and> list_all p x \<and> a = x @ a' \<and> b' = b @ x)"
    by auto
  finally show ?thesis .
qed

lemma in_run_Seq_Bol:
  "st' \<in> set (run (Seq Bol r) (b, a)) \<longleftrightarrow> b = [] \<and> st' \<in> set (run r (b, a))"
  unfolding in_run_Seq in_run_Bol by blast

lemma in_run_Seq_Char:
  "st' \<in> set (run (Seq (Char c) r) (b, a)) \<longleftrightarrow>
     (\<exists>rest. a = of_char c # rest \<and> st' \<in> set (run r (b @ [of_char c], rest)))"
  unfolding in_run_Seq in_run_Char by blast

lemma in_run_Seq_Plus_Class:
  "st' \<in> set (run (Seq (Plus (Class p)) r) (b, a)) \<longleftrightarrow>
     (\<exists>x rest. x \<noteq> [] \<and> list_all p x \<and> a = x @ rest \<and> st' \<in> set (run r (b @ x, rest)))"
  unfolding in_run_Seq in_run_Plus_Class by blast

lemma run_tld:
  "st' \<in> set (run (Seq (Plus (Class p)) Eol) (b, a)) \<longleftrightarrow>
     a \<noteq> [] \<and> list_all p a \<and> st' = (b @ a, [])"
  unfolding in_run_Seq_Plus_Class by (cases st') (auto simp del: run.simps simp: in_run_Eol)

lemma run_dot_tld:
  "st' \<in> set (run (Seq (Char c) (Seq (Plus (Class p)) Eol)) (b, a)) \<longleftrightarrow>
     (\<exists>z. a = of_char c # z \<and> z \<noteq> [] \<and> list_all p z \<and> st' = (b @ a, []))"
  unfolding in_run_Seq_Char run_tld by auto

lemma run_domain:
  "st' \<in> set (run (Seq (Plus (Class p)) (Seq (Char c) (Seq (Plus (Class p)) Eol))) (b, a)) \<longleftrightarrow>
     (\<exists>y z. a = y @ of_char c # z \<and> y \<noteq> [] \<and> z \<noteq> [] \<and> list_all p y \<and> list_all p z
        \<and> st' = (b @ a, []))"
  unfolding in_run_Seq_Plus_Class run_dot_tld by auto

lemma run_at_domain:
  "st' \<in> set (run (Seq (Char d) (Seq (Plus (Class p)) (Seq (Char c) (Seq (Plus (Class p)) Eol))))
       (b, a)) \<longleftrightarrow>
     (\<exists>y z. a = of_char d # y @ of_char c # z \<and> y \<noteq> [] \<and> z \<noteq> []
        \<and> list_all p y \<and> list_all p z \<and> st' = (b @ a, []))"
  unfolding in_run_Seq_Char run_domain by auto

lemma run_local:
  "st' \<in> set (run (Seq (Plus (Class p)) (Seq (Char d) (Seq (Plus (Class p))
       (Seq (Char c) (Seq (Plus (Class p)) Eol))))) (b, a)) \<longleftrightarrow>
     (\<exists>x y z. a = x @ of_char d # y @ of_char c # z \<and> x \<noteq> [] \<and> y \<noteq> [] \<and> z \<noteq> []
        \<and> list_all p x \<and> list_all p y \<and> list_all p z \<and> st' = (b @ a, []))"
  unfolding in_run_Seq_Plus_Class run_at_domain by auto

lemma run_emailRegex:
  "st' \<in> set (run emailRegex (b, a)) \<longleftrightarrow>
     b = [] \<and> st' = (a, [])
     \<and> (\<exists>x y z. a = x @ js ''@'' @ y @ js ''.'' @ z
           \<and> x \<noteq> [] \<and> y \<noteq> [] \<and> z \<noteq> []
           \<and> list_all not_space_at x \<and> list_all not_space_at y \<and> list_all not_space_at z)"
  unfolding emailRegex_def in_run_Seq_Bol run_local js_def by auto

lemma run_emailRegex_nonempty:
  "run emailRegex (b, a) \<noteq> [] \<longleftrightarrow> b = [] \<and> email_shape a"
proof -
  have "run emailRegex (b, a) \<noteq> [] \<longleftrightarrow> (\<exists>st'. st' \<in> set (run emailRegex (b, a)))"
    by (cases "run emailRegex (b, a)") (auto simp del: run.simps)
  then show ?thesis
    unfolding run_emailRegex email_shape_def by blast
qed

lemma email_shape_not_Nil: "\<not> email_shape []"
  by (simp add: email_shape_def)

lemma isValidEmail_iff: "isValidEmail email \<longleftrightarrow> email_shape email"
proof
  assume "isValidEmail email"
  then obtain i where "run emailRegex (take i email, drop i email) \<noteq> []"
    unfolding isValidEmail_def regex_test_def list_ex_iff by blast
  then have i: "take i email = []" and shape: "email_shape (drop i email)"
    unfolding run_emailRegex_nonempty by simp_all
  from shape email_shape_not_Nil have "drop i email \<noteq> []" by auto
  with i have "i = 0" by (cases i) auto
  with shape show "email_shape email" by simp
next
  assume "email_shape email"
  then have "run emailRegex (take 0 email, drop 0 email) \<noteq> []"
    unfolding run_emailRegex_nonempty by simp
  moreover have "0 \<in> set [0..<Suc (length email)]" by simp
  ultimately show "isValidEmail email"
    unfolding isValidEmail_def regex_test_def list_ex_iff by blast
qed

text \<open>
  Claim C3. \<^verbatim>\<open>isValidEmail\<close> accepts exactly the strings of the shape the specification
  describes, where a space is any character of the class \<^verbatim>\<open>\s\<close>. It accepts
  \<^verbatim>\<open>"user@example.com"\<close> and rejects \<^verbatim>\<open>"user@example"\<close>, \<^verbatim>\<open>"user @example.com"\<close> and the empty string.
\<close>

theorem isValidEmail_shape:
  "(isValidEmail email \<longleftrightarrow> email_shape email)
   \<and> isValidEmail (js ''user@example.com'')
   \<and> \<not> isValidEmail (js ''user@example'')
   \<and> \<not> isValidEmail (js ''user @example.com'')
   \<and> \<not> isValidEmail (js [])"
proof -
  have "isValidEmail (js ''user@example.com'')"
    by code_simp
  moreover have "\<not> isValidEmail (js ''user@example'')"
    by code_simp
  moreover have "\<not> isValidEmail (js ''user @example.com'')"
    by code_simp
  moreover have "\<not> isValidEmail (js [])"
    by code_simp
  ultimately show ?thesis
    by (simp add: isValidEmail_iff)
qed

end
